theory Spec2Isabelle
  imports Main
begin

section \<open>JavaScript values and objects\<close>

text \<open>
  The values that flow through the authentication code: \<open>undefined\<close>, \<open>null\<close>, strings,
  booleans and \<open>Date\<close> objects (milliseconds relative to the epoch). Numbers, arrays and nested
  objects do not occur in the code paths modelled here and are left out of the type.
  An object is the list of its own properties in insertion order.
\<close>

datatype jsval = Undefined | Null | Str string | Bool bool | Date int

type_synonym jsobj = "(string \<times> jsval) list"

fun truthy :: "jsval \<Rightarrow> bool" where
  "truthy Undefined = False"
| "truthy Null = False"
| "truthy (Str s) = (s \<noteq> [])"
| "truthy (Bool b) = b"
| "truthy (Date d) = True"

text \<open>\<open>a || b\<close>\<close>

definition or_else :: "jsval \<Rightarrow> jsval \<Rightarrow> jsval" where
  "or_else a b = (if truthy a then a else b)"

text \<open>\<open>obj.k\<close>: a missing property reads as \<open>undefined\<close>.\<close>

definition getp :: "jsobj \<Rightarrow> string \<Rightarrow> jsval" where
  "getp obj k = (case map_of obj k of None \<Rightarrow> Undefined | Some v \<Rightarrow> v)"

definition keys :: "jsobj \<Rightarrow> string set" where
  "keys obj = fst ` set obj"

text \<open>Thrown exceptions, by constructor, each with its \<open>message\<close>.\<close>

datatype exn =
    Error string
  | TypeError string
  | ReferenceError string
  | DatabaseError string
  | MailError string

fun message :: "exn \<Rightarrow> string" where
  "message (Error m) = m"
| "message (TypeError m) = m"
| "message (ReferenceError m) = m"
| "message (DatabaseError m) = m"
| "message (MailError m) = m"

section \<open>UUIDs\<close>

text \<open>
  A UUID is sixteen bytes, here eight groups of four hexadecimal digits. The server prints it in
  lower case with hyphens after the second, third, fourth and fifth group. It reads a text as a
  UUID when the text is thirty-two hexadecimal digits in either case, with an optional hyphen
  after any group of four but the last, optionally in braces, and refuses every other text.
\<close>

datatype hexdigit =
  X0 | X1 | X2 | X3 | X4 | X5 | X6 | X7 | X8 | X9 | XA | XB | XC | XD | XE | XF

type_synonym quad = "hexdigit \<times> hexdigit \<times> hexdigit \<times> hexdigit"

type_synonym uuid = "quad \<times> quad \<times> quad \<times> quad \<times> quad \<times> quad \<times> quad \<times> quad"

fun hex_char :: "hexdigit \<Rightarrow> char" where
  "hex_char X0 = CHR ''0''"
| "hex_char X1 = CHR ''1''"
| "hex_char X2 = CHR ''2''"
| "hex_char X3 = CHR ''3''"
| "hex_char X4 = CHR ''4''"
| "hex_char X5 = CHR ''5''"
| "hex_char X6 = CHR ''6''"
| "hex_char X7 = CHR ''7''"
| "hex_char X8 = CHR ''8''"
| "hex_char X9 = CHR ''9''"
| "hex_char XA = CHR ''a''"
| "hex_char XB = CHR ''b''"
| "hex_char XC = CHR ''c''"
| "hex_char XD = CHR ''d''"
| "hex_char XE = CHR ''e''"
| "hex_char XF = CHR ''f''"

definition hex_val :: "char \<Rightarrow> hexdigit option" where
  "hex_val c =
     map_of (zip ''0123456789abcdefABCDEF''
               [X0, X1, X2, X3, X4, X5, X6, X7, X8, X9, XA, XB, XC, XD, XE, XF,
                XA, XB, XC, XD, XE, XF]) c"

fun quad_out :: "quad \<Rightarrow> string" where
  "quad_out (a, b, c, d) = [hex_char a, hex_char b, hex_char c, hex_char d]"

fun uuid_out :: "uuid \<Rightarrow> string" where
  "uuid_out (q1, q2, q3, q4, q5, q6, q7, q8) =
     quad_out q1 @ quad_out q2 @ CHR ''-'' # quad_out q3 @ CHR ''-'' # quad_out q4 @
     CHR ''-'' # quad_out q5 @ CHR ''-'' # quad_out q6 @ quad_out q7 @ quad_out q8"

text \<open>One group of four digits; when \<open>hyphen\<close> is set, a hyphen that follows is consumed.\<close>

fun parse_quad :: "bool \<Rightarrow> string \<Rightarrow> (quad \<times> string) option" where
  "parse_quad hyphen (a # b # c # d # rest) =
     (case (hex_val a, hex_val b, hex_val c, hex_val d) of
        (Some w, Some x, Some y, Some z) \<Rightarrow>
          Some ((w, x, y, z),
                case rest of
                  [] \<Rightarrow> []
                | h # rest' \<Rightarrow> if hyphen \<and> h = CHR ''-'' then rest' else rest)
      | other \<Rightarrow> None)"
| "parse_quad hyphen short = None"

definition parse_quads :: "string \<Rightarrow> (uuid \<times> string) option" where
  "parse_quads s0 =
     Option.bind (parse_quad True s0) (\<lambda>(q1, s1).
     Option.bind (parse_quad True s1) (\<lambda>(q2, s2).
     Option.bind (parse_quad True s2) (\<lambda>(q3, s3).
     Option.bind (parse_quad True s3) (\<lambda>(q4, s4).
     Option.bind (parse_quad True s4) (\<lambda>(q5, s5).
     Option.bind (parse_quad True s5) (\<lambda>(q6, s6).
     Option.bind (parse_quad True s6) (\<lambda>(q7, s7).
     Option.bind (parse_quad False s7) (\<lambda>(q8, s8).
       Some ((q1, q2, q3, q4, q5, q6, q7, q8), s8)))))))))"

definition parse_uuid :: "string \<Rightarrow> uuid option" where
  "parse_uuid s =
     (case s of
        [] \<Rightarrow> None
      | c # cs \<Rightarrow>
          if c = CHR ''{'' then
            (case parse_quads cs of
               None \<Rightarrow> None
             | Some (u, rest) \<Rightarrow> if rest = ''}'' then Some u else None)
          else
            (case parse_quads s of
               None \<Rightarrow> None
             | Some (u, rest) \<Rightarrow> if rest = [] then Some u else None))"

section \<open>The environment of a request\<close>

text \<open>
  The ambient sources of nondeterminism of one request: the clock (\<open>Date.now()\<close>, \<open>new Date()\<close>
  and the server's \<open>NOW()\<close>, read once per request), \<open>uuidv4()\<close>, \<open>crypto.randomBytes\<close>,
  the salt drawn by the hashing library, and whether the mail transport accepts a message.
\<close>

record env =
  now :: int
  uuidv4 :: uuid
  random :: "nat \<Rightarrow> nat"
  salt :: string
  mail_ok :: bool

section \<open>The users table\<close>

text \<open>
  One row of \<open>users\<close> (migration 001): the columns in table order, nullable columns as options,
  timestamps in milliseconds. The id is a UUID, which the driver hands over as its printed text.
\<close>

record db_row =
  row_id :: uuid
  email :: string
  password_hash :: string
  first_name :: string
  last_name :: string
  phone :: "string option"
  user_type :: string
  business_name :: "string option"
  created_at :: int
  updated_at :: int
  is_verified :: bool
  verification_token :: "string option"
  reset_password_token :: "string option"
  reset_password_expires :: "int option"

type_synonym store = "db_row list"

definition opt_str :: "string option \<Rightarrow> jsval" where
  "opt_str x = (case x of None \<Rightarrow> Null | Some s \<Rightarrow> Str s)"

definition opt_date :: "int option \<Rightarrow> jsval" where
  "opt_date x = (case x of None \<Rightarrow> Null | Some d \<Rightarrow> Date d)"

text \<open>A result row as the driver hands it over: one property per column, named as the column.\<close>

definition row_obj :: "db_row \<Rightarrow> jsobj" where
  "row_obj r =
    [(''id'', Str (uuid_out (row_id r))),
     (''email'', Str (email r)),
     (''password_hash'', Str (password_hash r)),
     (''first_name'', Str (first_name r)),
     (''last_name'', Str (last_name r)),
     (''phone'', opt_str (phone r)),
     (''user_type'', Str (user_type r)),
     (''business_name'', opt_str (business_name r)),
     (''created_at'', Date (created_at r)),
     (''updated_at'', Date (updated_at r)),
     (''is_verified'', Bool (is_verified r)),
     (''verification_token'', opt_str (verification_token r)),
     (''reset_password_token'', opt_str (reset_password_token r)),
     (''reset_password_expires'', opt_date (reset_password_expires r))]"

section \<open>models/user.js\<close>

text \<open>\<open>new User(data)\<close>: a User object is the list of the fourteen properties the constructor sets.\<close>

definition User :: "env \<Rightarrow> jsobj \<Rightarrow> jsobj" where
  "User e data =
    [(''id'', or_else (getp data ''id'') (Str (uuid_out (uuidv4 e)))),
     (''email'', getp data ''email''),
     (''passwordHash'', or_else (getp data ''passwordHash'') (Str [])),
     (''firstName'', getp data ''firstName''),
     (''lastName'', getp data ''lastName''),
     (''phone'', or_else (getp data ''phone'') Null),
     (''userType'', or_else (getp data ''userType'') (Str ''buyer'')),
     (''businessName'', or_else (getp data ''businessName'') Null),
     (''createdAt'', or_else (getp data ''createdAt'') (Date (now e))),
     (''updatedAt'', or_else (getp data ''updatedAt'') (Date (now e))),
     (''isVerified'', or_else (getp data ''isVerified'') (Bool False)),
     (''verificationToken'', or_else (getp data ''verificationToken'') Null),
     (''resetPasswordToken'', or_else (getp data ''resetPasswordToken'') Null),
     (''resetPasswordExpires'', or_else (getp data ''resetPasswordExpires'') Null)]"

text \<open>
  \<open>toJSON\<close>: the rest of the object after \<open>passwordHash\<close>, \<open>verificationToken\<close> and
  \<open>resetPasswordToken\<close> are destructured away.
\<close>

definition toJSON :: "jsobj \<Rightarrow> jsobj" where
  "toJSON this =
     filter (\<lambda>(k, v). k \<notin> {''passwordHash'', ''verificationToken'', ''resetPasswordToken''}) this"

section \<open>repositories/userRepository.js\<close>

text \<open>
  Binding a JavaScript value as a query parameter: \<open>undefined\<close> and \<open>null\<close> become \<open>NULL\<close>,
  a boolean is sent as its text, a string as itself. A \<open>Date\<close> stays a timestamp.
\<close>

datatype sqlval = SNull | SText string | STime int

fun sql_param :: "jsval \<Rightarrow> sqlval" where
  "sql_param Undefined = SNull"
| "sql_param Null = SNull"
| "sql_param (Str s) = SText s"
| "sql_param (Bool b) = SText (if b then ''true'' else ''false'')"
| "sql_param (Date d) = STime d"

text \<open>
  \<open>column = $n\<close> on a text column: \<open>NULL\<close> equals nothing, and neither does a timestamp
  (a \<open>Date\<close> reaches a text column on no path of the handlers).
\<close>

definition text_eq :: "string \<Rightarrow> sqlval \<Rightarrow> bool" where
  "text_eq c p = (p = SText c)"

text \<open>
  A parameter compared with or stored in the \<open>id\<close> column is read as a UUID: \<open>NULL\<close> stays
  \<open>NULL\<close>, a text that is not a UUID is refused by the server, and so is a \<open>Date\<close>, which is sent
  as its text.
\<close>

definition invalid_uuid :: exn where
  "invalid_uuid = DatabaseError ''invalid input syntax for type uuid''"

fun uuid_param :: "sqlval \<Rightarrow> exn + uuid option" where
  "uuid_param SNull = Inr None"
| "uuid_param (SText t) = (case parse_uuid t of None \<Rightarrow> Inl invalid_uuid | Some u \<Rightarrow> Inr (Some u))"
| "uuid_param (STime d) = Inl invalid_uuid"

definition mapDbUserToModel :: "jsobj \<Rightarrow> jsobj" where
  "mapDbUserToModel dbUser =
    [(''id'', getp dbUser ''id''),
     (''email'', getp dbUser ''email''),
     (''passwordHash'', getp dbUser ''password_hash''),
     (''firstName'', getp dbUser ''first_name''),
     (''lastName'', getp dbUser ''last_name''),
     (''phone'', getp dbUser ''phone''),
     (''userType'', getp dbUser ''user_type''),
     (''businessName'', getp dbUser ''business_name''),
     (''createdAt'', getp dbUser ''created_at''),
     (''updatedAt'', getp dbUser ''updated_at''),
     (''isVerified'', getp dbUser ''is_verified''),
     (''verificationToken'', getp dbUser ''verification_token''),
     (''resetPasswordToken'', getp dbUser ''reset_password_token''),
     (''resetPasswordExpires'', getp dbUser ''reset_password_expires'')]"

text \<open>
  \<open>findById\<close>, \<open>findByEmail\<close>: \<open>SELECT * FROM users WHERE column = $1\<close>; no row gives \<open>null\<close>
  (\<open>None\<close>), otherwise the first row goes to the constructor as it is. \<open>findById\<close> throws when
  the server refuses the parameter.
\<close>

definition findById :: "env \<Rightarrow> store \<Rightarrow> jsval \<Rightarrow> exn + jsobj option" where
  "findById e s i =
     (case uuid_param (sql_param i) of
        Inl err \<Rightarrow> Inl err
      | Inr p \<Rightarrow>
          (case filter (\<lambda>r. p = Some (row_id r)) s of
             [] \<Rightarrow> Inr None
           | r # rest \<Rightarrow> Inr (Some (User e (row_obj r)))))"

definition findByEmail :: "env \<Rightarrow> store \<Rightarrow> jsval \<Rightarrow> jsobj option" where
  "findByEmail e s em =
     (case filter (\<lambda>r. text_eq (email r) (sql_param em)) s of
        [] \<Rightarrow> None
      | r # rest \<Rightarrow> Some (User e (row_obj r)))"

text \<open>
  Column assignment in \<open>INSERT\<close> and \<open>UPDATE\<close>, with the constraints of the table: \<open>NOT NULL\<close>,
  the \<open>VARCHAR\<close> lengths, the boolean and timestamp types. A text longer than the column is
  cut to the column's length when all that is cut are spaces, and refused otherwise. A boolean
  is read from a text as the server reads it: surrounding white space is dropped, the case is
  ignored, and what is left is a prefix of \<open>true\<close>, \<open>false\<close>, \<open>yes\<close> or \<open>no\<close>, or one of \<open>on\<close>,
  \<open>of\<close>, \<open>off\<close>, \<open>1\<close>, \<open>0\<close>. The server's parsing of a text as a timestamp and its rendering of
  a timestamp as a text are not modelled and are rejected.
\<close>

definition not_null_violation :: exn where
  "not_null_violation = DatabaseError ''null value violates not-null constraint''"

definition too_long :: exn where
  "too_long = DatabaseError ''value too long for type character varying''"

definition invalid_syntax :: exn where
  "invalid_syntax = DatabaseError ''invalid input syntax''"

definition fit :: "nat \<Rightarrow> string \<Rightarrow> exn + string" where
  "fit n t =
     (if length t \<le> n then Inr t
      else if list_all (\<lambda>c. c = CHR '' '') (drop n t) then Inr (take n t)
      else Inl too_long)"

fun varchar :: "nat \<Rightarrow> sqlval \<Rightarrow> exn + string" where
  "varchar n SNull = Inl not_null_violation"
| "varchar n (SText t) = fit n t"
| "varchar n (STime d) = Inl invalid_syntax"

fun varchar_null :: "nat \<Rightarrow> sqlval \<Rightarrow> exn + string option" where
  "varchar_null n SNull = Inr None"
| "varchar_null n (SText t) = map_sum (\<lambda>x. x) Some (fit n t)"
| "varchar_null n (STime d) = Inl invalid_syntax"

definition uuid_col :: "sqlval \<Rightarrow> exn + uuid" where
  "uuid_col v =
     (case uuid_param v of
        Inl err \<Rightarrow> Inl err
      | Inr None \<Rightarrow> Inl not_null_violation
      | Inr (Some u) \<Rightarrow> Inr u)"

definition is_space :: "char \<Rightarrow> bool" where
  "is_space c = (c \<in> set [CHR '' '', CHR 0x09, CHR 0x0A, CHR 0x0B, CHR 0x0C, CHR 0x0D])"

definition trim :: "string \<Rightarrow> string" where
  "trim t = rev (dropWhile is_space (rev (dropWhile is_space t)))"

definition to_lower :: "char \<Rightarrow> char" where
  "to_lower c =
     (case map_of (zip ''ABCDEFGHIJKLMNOPQRSTUVWXYZ'' ''abcdefghijklmnopqrstuvwxyz'') c of
        None \<Rightarrow> c
      | Some l \<Rightarrow> l)"

definition abbreviates :: "string \<Rightarrow> string \<Rightarrow> bool" where
  "abbreviates t word = (t \<noteq> [] \<and> take (length t) word = t)"

definition parse_bool :: "string \<Rightarrow> bool option" where
  "parse_bool t =
     (let v = map to_lower (trim t) in
      if abbreviates v ''true'' then Some True
      else if abbreviates v ''false'' then Some False
      else if abbreviates v ''yes'' then Some True
      else if abbreviates v ''no'' then Some False
      else if v = ''on'' then Some True
      else if v = ''of'' \<or> v = ''off'' then Some False
      else if v = ''1'' then Some True
      else if v = ''0'' then Some False
      else None)"

fun boolean :: "sqlval \<Rightarrow> exn + bool" where
  "boolean SNull = Inl not_null_violation"
| "boolean (SText t) = (case parse_bool t of None \<Rightarrow> Inl invalid_syntax | Some b \<Rightarrow> Inr b)"
| "boolean (STime d) = Inl invalid_syntax"

fun timestamp :: "sqlval \<Rightarrow> exn + int" where
  "timestamp SNull = Inl not_null_violation"
| "timestamp (SText t) = Inl invalid_syntax"
| "timestamp (STime d) = Inr d"

fun timestamp_null :: "sqlval \<Rightarrow> exn + int option" where
  "timestamp_null SNull = Inr None"
| "timestamp_null (SText t) = Inl invalid_syntax"
| "timestamp_null (STime d) = Inr (Some d)"

definition assign :: "string \<Rightarrow> sqlval \<Rightarrow> db_row \<Rightarrow> exn + db_row" where
  "assign c v r =
    (if c = ''id'' then map_sum (\<lambda>x. x) (\<lambda>x. r\<lparr>row_id := x\<rparr>) (uuid_col v)
     else if c = ''email'' then map_sum (\<lambda>x. x) (\<lambda>x. r\<lparr>email := x\<rparr>) (varchar 255 v)
     else if c = ''password_hash'' then map_sum (\<lambda>x. x) (\<lambda>x. r\<lparr>password_hash := x\<rparr>) (varchar 255 v)
     else if c = ''first_name'' then map_sum (\<lambda>x. x) (\<lambda>x. r\<lparr>first_name := x\<rparr>) (varchar 100 v)
     else if c = ''last_name'' then map_sum (\<lambda>x. x) (\<lambda>x. r\<lparr>last_name := x\<rparr>) (varchar 100 v)
     else if c = ''phone'' then map_sum (\<lambda>x. x) (\<lambda>x. r\<lparr>phone := x\<rparr>) (varchar_null 20 v)
     else if c = ''user_type'' then map_sum (\<lambda>x. x) (\<lambda>x. r\<lparr>user_type := x\<rparr>) (varchar 20 v)
     else if c = ''business_name'' then map_sum (\<lambda>x. x) (\<lambda>x. r\<lparr>business_name := x\<rparr>) (varchar_null 100 v)
     else if c = ''created_at'' then map_sum (\<lambda>x. x) (\<lambda>x. r\<lparr>created_at := x\<rparr>) (timestamp v)
     else if c = ''updated_at'' then map_sum (\<lambda>x. x) (\<lambda>x. r\<lparr>updated_at := x\<rparr>) (timestamp v)
     else if c = ''is_verified'' then map_sum (\<lambda>x. x) (\<lambda>x. r\<lparr>is_verified := x\<rparr>) (boolean v)
     else if c = ''verification_token'' then
       map_sum (\<lambda>x. x) (\<lambda>x. r\<lparr>verification_token := x\<rparr>) (varchar_null 255 v)
     else if c = ''reset_password_token'' then
       map_sum (\<lambda>x. x) (\<lambda>x. r\<lparr>reset_password_token := x\<rparr>) (varchar_null 255 v)
     else if c = ''reset_password_expires'' then
       map_sum (\<lambda>x. x) (\<lambda>x. r\<lparr>reset_password_expires := x\<rparr>) (timestamp_null v)
     else Inl (DatabaseError ''column does not exist''))"

fun assign_all :: "(string \<times> sqlval) list \<Rightarrow> db_row \<Rightarrow> exn + db_row" where
  "assign_all [] r = Inr r"
| "assign_all ((c, v) # as) r = (case assign c v r of Inl err \<Rightarrow> Inl err | Inr r' \<Rightarrow> assign_all as r')"

text \<open>
  \<open>UPDATE users SET ... WHERE P RETURNING *\<close>: every row that satisfies \<open>P\<close> is replaced, in table
  order; the result is the new table and the replaced rows. A failing row aborts the statement.
\<close>

fun update_rows ::
  "(db_row \<Rightarrow> bool) \<Rightarrow> (db_row \<Rightarrow> exn + db_row) \<Rightarrow> store \<Rightarrow> exn + (store \<times> db_row list)" where
  "update_rows P f [] = Inr ([], [])"
| "update_rows P f (r # rs) =
     (if P r then
        (case f r of
           Inl err \<Rightarrow> Inl err
         | Inr r' \<Rightarrow>
             (case update_rows P f rs of
                Inl err \<Rightarrow> Inl err
              | Inr (s', out) \<Rightarrow> Inr (r' # s', r' # out)))
      else
        (case update_rows P f rs of
           Inl err \<Rightarrow> Inl err
         | Inr (s', out) \<Rightarrow> Inr (r # s', out)))"

text \<open>
  The \<open>UNIQUE\<close> constraint on \<open>email\<close>: a written row clashes when its email occurs twice in
  the new table. Only a statement that assigns \<open>email\<close> can run into it.
\<close>

definition email_clash :: "store \<Rightarrow> db_row list \<Rightarrow> bool" where
  "email_clash s' out = (\<exists>r \<in> set out. 1 < length (filter (\<lambda>x. email x = email r) s'))"

definition unique_violation :: exn where
  "unique_violation = DatabaseError ''duplicate key value violates unique constraint''"

text \<open>The errors the server raises in this model.\<close>

definition server_errors :: "exn set" where
  "server_errors =
     {not_null_violation, too_long, invalid_syntax, invalid_uuid,
      DatabaseError ''column does not exist'', unique_violation}"

text \<open>
  \<open>create(user)\<close>: the \<open>INSERT\<close> of the twelve listed columns (the two reset columns default to
  \<open>NULL\<close>), with the primary key and the unique email checked; the returned row is mapped.
\<close>

definition nil_uuid :: uuid where
  "nil_uuid =
     ((X0, X0, X0, X0), (X0, X0, X0, X0), (X0, X0, X0, X0), (X0, X0, X0, X0),
      (X0, X0, X0, X0), (X0, X0, X0, X0), (X0, X0, X0, X0), (X0, X0, X0, X0))"

definition blank_row :: db_row where
  "blank_row = \<lparr>row_id = nil_uuid, email = [], password_hash = [], first_name = [], last_name = [],
     phone = None, user_type = [], business_name = None, created_at = 0, updated_at = 0,
     is_verified = False, verification_token = None, reset_password_token = None,
     reset_password_expires = None\<rparr>"

definition insert_values :: "jsobj \<Rightarrow> (string \<times> sqlval) list" where
  "insert_values user =
    [(''id'', sql_param (getp user ''id'')),
     (''email'', sql_param (getp user ''email'')),
     (''password_hash'', sql_param (getp user ''passwordHash'')),
     (''first_name'', sql_param (getp user ''firstName'')),
     (''last_name'', sql_param (getp user ''lastName'')),
     (''phone'', sql_param (getp user ''phone'')),
     (''user_type'', sql_param (getp user ''userType'')),
     (''business_name'', sql_param (getp user ''businessName'')),
     (''created_at'', sql_param (getp user ''createdAt'')),
     (''updated_at'', sql_param (getp user ''updatedAt'')),
     (''is_verified'', sql_param (getp user ''isVerified'')),
     (''verification_token'', sql_param (getp user ''verificationToken''))]"

definition UserRepository_create :: "env \<Rightarrow> store \<Rightarrow> jsobj \<Rightarrow> store \<times> (exn + jsobj)" where
  "UserRepository_create e s user =
    (case assign_all (insert_values user) blank_row of
       Inl err \<Rightarrow> (s, Inl err)
     | Inr r \<Rightarrow>
         if (\<exists>x \<in> set s. row_id x = row_id r) \<or> (\<exists>x \<in> set s. email x = email r)
         then (s, Inl unique_violation)
         else (s @ [r], Inr (User e (mapDbUserToModel (row_obj r)))))"

text \<open>
  \<open>update(id, updates)\<close>. The key is turned to snake case by \<open>replace(/([A-Z])/g, '_$1')\<close> and
  \<open>toLowerCase()\<close> (on the ASCII letters); the keys found in \<open>validFields\<close> are assigned in the order
  of \<open>Object.entries\<close>, then \<open>updated_at\<close>. Two assignments to one column are refused by the server,
  and so is an \<open>id\<close> that is not a UUID.
  \<open>result.rows[0]\<close> goes to \<open>mapDbUserToModel\<close> unchecked: reading \<open>id\<close> of \<open>undefined\<close> throws.
\<close>

definition is_upper :: "char \<Rightarrow> bool" where
  "is_upper c = (c \<in> set ''ABCDEFGHIJKLMNOPQRSTUVWXYZ'')"

definition snake_case :: "string \<Rightarrow> string" where
  "snake_case key = map to_lower (concat (map (\<lambda>c. if is_upper c then [CHR ''_'', c] else [c]) key))"

definition validFields :: "string list" where
  "validFields =
    [''email'', ''password_hash'', ''first_name'', ''last_name'',
     ''phone'', ''user_type'', ''business_name'', ''is_verified'',
     ''verification_token'', ''reset_password_token'', ''reset_password_expires'']"

definition setFields :: "jsobj \<Rightarrow> (string \<times> sqlval) list" where
  "setFields updates =
     map (\<lambda>(c, v). (c, sql_param v))
       (filter (\<lambda>(c, v). c \<in> set validFields) (map (\<lambda>(k, v). (snake_case k, v)) updates))"

definition undefined_id :: exn where
  "undefined_id = TypeError ''Cannot read properties of undefined (reading id)''"

definition UserRepository_update :: "env \<Rightarrow> store \<Rightarrow> jsval \<Rightarrow> jsobj \<Rightarrow> store \<times> (exn + jsobj)" where
  "UserRepository_update e s i updates =
    (let sets = setFields updates @ [(''updated_at'', STime (now e))] in
     if \<not> distinct (map fst sets) then (s, Inl (DatabaseError ''multiple assignments to same column''))
     else
       (case uuid_param (sql_param i) of
          Inl err \<Rightarrow> (s, Inl err)
        | Inr p \<Rightarrow>
            (case update_rows (\<lambda>r. p = Some (row_id r)) (assign_all sets) s of
               Inl err \<Rightarrow> (s, Inl err)
             | Inr (s', out) \<Rightarrow>
                 if ''email'' \<in> fst ` set sets \<and> email_clash s' out then (s, Inl unique_violation)
                 else
                   (case out of
                      [] \<Rightarrow> (s', Inl undefined_id)
                    | r # rest \<Rightarrow> (s', Inr (User e (mapDbUserToModel (row_obj r))))))))"

text \<open>
  \<open>verifyEmail(token)\<close>: one \<open>UPDATE\<close> sets \<open>is_verified\<close>, clears \<open>verification_token\<close> and stamps
  \<open>updated_at\<close> on every row that holds the token; no row gives \<open>null\<close>.
\<close>

definition holds_verification_token :: "sqlval \<Rightarrow> db_row \<Rightarrow> bool" where
  "holds_verification_token p r =
     (case verification_token r of None \<Rightarrow> False | Some t \<Rightarrow> text_eq t p)"

definition UserRepository_verifyEmail :: "env \<Rightarrow> store \<Rightarrow> jsval \<Rightarrow> store \<times> jsobj option" where
  "UserRepository_verifyEmail e s token =
    (case update_rows (holds_verification_token (sql_param token))
            (\<lambda>r. Inr (r\<lparr>is_verified := True, verification_token := None, updated_at := now e\<rparr>)) s of
       Inl err \<Rightarrow> (s, None)
     | Inr (s', out) \<Rightarrow>
         (case out of
            [] \<Rightarrow> (s', None)
          | r # rest \<Rightarrow> (s', Some (User e (mapDbUserToModel (row_obj r))))))"

section \<open>The password hashing library\<close>

text \<open>
  The hashing library is not part of the repository and enters as a parameter: \<open>bc_hash data salt\<close>
  is \<open>bcrypt.hash(data, 10)\<close> with the salt it drew, \<open>bc_compare data encrypted\<close> is
  \<open>bcrypt.compare(data, encrypted)\<close>. Both reject an argument that is not a string.
\<close>

record bcrypt =
  bc_hash :: "string \<Rightarrow> string \<Rightarrow> string"
  bc_compare :: "string \<Rightarrow> string \<Rightarrow> bool"

fun bcrypt_hash :: "bcrypt \<Rightarrow> env \<Rightarrow> jsval \<Rightarrow> exn + string" where
  "bcrypt_hash B e (Str data) = Inr (bc_hash B data (salt e))"
| "bcrypt_hash B e Undefined = Inl (Error ''data and salt arguments required'')"
| "bcrypt_hash B e Null = Inl (Error ''data and salt arguments required'')"
| "bcrypt_hash B e v = Inl (Error ''data must be a string or Buffer'')"

fun bcrypt_compare :: "bcrypt \<Rightarrow> jsval \<Rightarrow> jsval \<Rightarrow> exn + bool" where
  "bcrypt_compare B (Str data) (Str encrypted) = Inr (bc_compare B data encrypted)"
| "bcrypt_compare B Undefined h = Inl (Error ''data and hash arguments required'')"
| "bcrypt_compare B Null h = Inl (Error ''data and hash arguments required'')"
| "bcrypt_compare B d Undefined = Inl (Error ''data and hash arguments required'')"
| "bcrypt_compare B d Null = Inl (Error ''data and hash arguments required'')"
| "bcrypt_compare B d h = Inl (Error ''data and hash must be strings'')"

text \<open>\<open>{...obj, k: v}\<close>: the property keeps its place when it is there, and is added last otherwise.\<close>

definition set_prop :: "string \<Rightarrow> jsval \<Rightarrow> jsobj \<Rightarrow> jsobj" where
  "set_prop k v obj =
     (if k \<in> fst ` set obj then map (\<lambda>(k', v'). if k' = k then (k', v) else (k', v')) obj
      else obj @ [(k, v)])"

text \<open>\<open>User.create(data)\<close> and \<open>verifyPassword(password)\<close> of the model class.\<close>

definition User_create :: "bcrypt \<Rightarrow> env \<Rightarrow> jsobj \<Rightarrow> exn + jsobj" where
  "User_create B e data =
    (case bcrypt_hash B e (getp data ''password'') of
       Inl err \<Rightarrow> Inl err
     | Inr passwordHash \<Rightarrow> Inr (User e (set_prop ''passwordHash'' (Str passwordHash) data)))"

definition verifyPassword :: "bcrypt \<Rightarrow> jsobj \<Rightarrow> jsval \<Rightarrow> exn + bool" where
  "verifyPassword B this password = bcrypt_compare B password (getp this ''passwordHash'')"

section \<open>utils/emailService.js\<close>

text \<open>\<open>sendEmail\<close>: the transport either accepts the message or rejects the promise.\<close>

definition sendEmail :: "env \<Rightarrow> exn option" where
  "sendEmail e = (if mail_ok e then None else Some (MailError ''sendMail failed''))"

section \<open>services/userService.js\<close>

record config =
  jwtSecret :: string
  jwtExpiresIn :: string

text \<open>A signed session token: the payload, the secret it was signed with, and its lifetime.\<close>

record jwt =
  payload :: jsobj
  signed_with :: string
  issued_at :: int
  expires_in :: string

definition generateJWT :: "config \<Rightarrow> env \<Rightarrow> jsobj \<Rightarrow> jwt" where
  "generateJWT cfg e user =
     \<lparr>payload = [(''id'', getp user ''id''), (''email'', getp user ''email''),
                  (''userType'', getp user ''userType'')],
      signed_with = jwtSecret cfg, issued_at = now e, expires_in = jwtExpiresIn cfg\<rparr>"

text \<open>\<open>generateToken\<close>: \<open>crypto.randomBytes(32).toString('hex')\<close>.\<close>

definition hex_digit :: "nat \<Rightarrow> char" where
  "hex_digit n = ''0123456789abcdef'' ! (n mod 16)"

definition hex_byte :: "nat \<Rightarrow> string" where
  "hex_byte b = [hex_digit ((b mod 256) div 16), hex_digit (b mod 16)]"

definition generateToken :: "env \<Rightarrow> string" where
  "generateToken e = concat (map (\<lambda>i. hex_byte (random e i)) [0..<32])"

definition weak_password :: exn where
  "weak_password = Error ''Password must be at least 8 characters long''"

text \<open>
  \<open>validatePassword\<close>: throws when \<open>!password || password.length < 8\<close>. The \<open>length\<close> of a value
  that is not a string is \<open>undefined\<close>, and \<open>undefined < 8\<close> is false.
\<close>

fun validatePassword :: "jsval \<Rightarrow> exn option" where
  "validatePassword (Str s) = (if s = [] \<or> length s < 8 then Some weak_password else None)"
| "validatePassword v = (if \<not> truthy v then Some weak_password else None)"

definition email_exists :: exn where
  "email_exists = Error ''User with this email already exists''"

definition registerUser ::
  "bcrypt \<Rightarrow> env \<Rightarrow> store \<Rightarrow> jsobj \<Rightarrow> store \<times> (exn + jsobj \<times> string)" where
  "registerUser B e s userData =
    (case findByEmail e s (getp userData ''email'') of
       Some existingUser \<Rightarrow> (s, Inl email_exists)
     | None \<Rightarrow>
        (case validatePassword (getp userData ''password'') of
           Some err \<Rightarrow> (s, Inl err)
         | None \<Rightarrow>
            (let verificationToken = generateToken e in
             case User_create B e
                    (set_prop ''isVerified'' (Bool False)
                      (set_prop ''verificationToken'' (Str verificationToken) userData)) of
               Inl err \<Rightarrow> (s, Inl err)
             | Inr user \<Rightarrow>
                 (case UserRepository_create e s user of
                    (s', Inl err) \<Rightarrow> (s', Inl err)
                  | (s', Inr savedUser) \<Rightarrow>
                      (case sendEmail e of
                         Some err \<Rightarrow> (s', Inl err)
                       | None \<Rightarrow> (s', Inr (savedUser, verificationToken)))))))"

definition invalid_credentials :: exn where
  "invalid_credentials = Error ''Invalid email or password''"

definition email_not_verified :: exn where
  "email_not_verified = Error ''Please verify your email before logging in''"

definition loginUser ::
  "bcrypt \<Rightarrow> config \<Rightarrow> env \<Rightarrow> store \<Rightarrow> jsval \<Rightarrow> jsval \<Rightarrow> exn + jsobj \<times> jwt" where
  "loginUser B cfg e s em password =
    (case findByEmail e s em of
       None \<Rightarrow> Inl invalid_credentials
     | Some user \<Rightarrow>
        (case verifyPassword B user password of
           Inl err \<Rightarrow> Inl err
         | Inr isPasswordValid \<Rightarrow>
             if \<not> isPasswordValid then Inl invalid_credentials
             else if \<not> truthy (getp user ''isVerified'') then Inl email_not_verified
             else Inr (toJSON user, generateJWT cfg e user)))"

definition invalid_verification_token :: exn where
  "invalid_verification_token = Error ''Invalid or expired verification token''"

definition UserService_verifyEmail :: "env \<Rightarrow> store \<Rightarrow> jsval \<Rightarrow> store \<times> (exn + jsobj)" where
  "UserService_verifyEmail e s token =
    (case UserRepository_verifyEmail e s token of
       (s', None) \<Rightarrow> (s', Inl invalid_verification_token)
     | (s', Some user) \<Rightarrow> (s', Inr user))"

definition requestPasswordReset :: "env \<Rightarrow> store \<Rightarrow> jsval \<Rightarrow> store \<times> (exn + bool)" where
  "requestPasswordReset e s em =
    (case findByEmail e s em of
       None \<Rightarrow> (s, Inr True)
     | Some user \<Rightarrow>
        (let resetToken = generateToken e;
             resetExpires = Date (now e + 3600000) in
         case UserRepository_update e s (getp user ''id'')
                [(''resetPasswordToken'', Str resetToken), (''resetPasswordExpires'', resetExpires)] of
           (s', Inl err) \<Rightarrow> (s', Inl err)
         | (s', Inr updated) \<Rightarrow>
             (case sendEmail e of
                Some err \<Rightarrow> (s', Inl err)
              | None \<Rightarrow> (s', Inr True))))"

definition invalid_reset_token :: exn where
  "invalid_reset_token = Error ''Invalid or expired reset token''"

text \<open>
  \<open>resetPassword\<close> selects on \<open>reset_password_token = $1 AND reset_password_expires > NOW()\<close>;
  a \<open>NULL\<close> in either column selects nothing.
\<close>

definition live_reset_token :: "int \<Rightarrow> sqlval \<Rightarrow> db_row \<Rightarrow> bool" where
  "live_reset_token t p r =
     ((case reset_password_token r of None \<Rightarrow> False | Some tok \<Rightarrow> text_eq tok p) \<and>
      (case reset_password_expires r of None \<Rightarrow> False | Some x \<Rightarrow> t < x))"

definition resetPassword ::
  "bcrypt \<Rightarrow> env \<Rightarrow> store \<Rightarrow> jsval \<Rightarrow> jsval \<Rightarrow> store \<times> (exn + bool)" where
  "resetPassword B e s token newPassword =
    (case filter (live_reset_token (now e) (sql_param token)) s of
       [] \<Rightarrow> (s, Inl invalid_reset_token)
     | r # rest \<Rightarrow>
        (let user = User e (mapDbUserToModel (row_obj r)) in
         case validatePassword newPassword of
           Some err \<Rightarrow> (s, Inl err)
         | None \<Rightarrow>
            (case bcrypt_hash B e newPassword of
               Inl err \<Rightarrow> (s, Inl err)
             | Inr passwordHash \<Rightarrow>
                 (case UserRepository_update e s (getp user ''id'')
                        [(''passwordHash'', Str passwordHash), (''resetPasswordToken'', Null),
                         (''resetPasswordExpires'', Null)] of
                    (s', Inl err) \<Rightarrow> (s', Inl err)
                  | (s', Inr updated) \<Rightarrow> (s', Inr True)))))"

text \<open>
  \<open>updateProfile\<close>: \<open>password\<close>, \<open>passwordHash\<close> and \<open>isVerified\<close> are destructured away and the
  rest of the object goes to the repository. No binding named \<open>bcrypt\<close> is in scope of this
  function (the module does not require it; \<open>resetPassword\<close> and \<open>changePassword\<close> require it
  locally), so the branch that hashes a supplied password throws once the password has passed
  validation.
\<close>

definition updateProfile :: "env \<Rightarrow> store \<Rightarrow> jsval \<Rightarrow> jsobj \<Rightarrow> store \<times> (exn + jsobj)" where
  "updateProfile e s userId updates =
    (let password = getp updates ''password'';
         safeUpdates = filter (\<lambda>(k, v). k \<notin> {''password'', ''passwordHash'', ''isVerified''}) updates in
     if truthy password then
       (case validatePassword password of
          Some err \<Rightarrow> (s, Inl err)
        | None \<Rightarrow> (s, Inl (ReferenceError ''bcrypt is not defined'')))
     else UserRepository_update e s userId safeUpdates)"

section \<open>controllers/authController.js and controllers/userController.js\<close>

text \<open>
  What a handler sends: the status (200 when \<open>res.json\<close> is called alone) and the properties of the
  JSON body that occur in these handlers.
\<close>

record response =
  status :: nat
  body_message :: "string option"
  body_user :: "jsobj option"
  body_token :: "jwt option"

definition reply :: "nat \<Rightarrow> string \<Rightarrow> response" where
  "reply code m = \<lparr>status = code, body_message = Some m, body_user = None, body_token = None\<rparr>"

text \<open>\<open>s.includes(sub)\<close>\<close>

fun str_includes :: "string \<Rightarrow> string \<Rightarrow> bool" where
  "str_includes [] sub = (sub = [])"
| "str_includes (c # cs) sub = (take (length sub) (c # cs) = sub \<or> str_includes cs sub)"

text \<open>The object the register handler builds from the seven properties it reads off the body.\<close>

definition register_fields :: "jsobj \<Rightarrow> jsobj" where
  "register_fields body =
     [(''email'', getp body ''email''), (''password'', getp body ''password''),
      (''firstName'', getp body ''firstName''), (''lastName'', getp body ''lastName''),
      (''phone'', getp body ''phone''), (''userType'', getp body ''userType''),
      (''businessName'', getp body ''businessName'')]"

definition AuthController_register :: "bcrypt \<Rightarrow> env \<Rightarrow> store \<Rightarrow> jsobj \<Rightarrow> store \<times> response" where
  "AuthController_register B e s body =
    (if \<not> truthy (getp body ''email'') \<or> \<not> truthy (getp body ''password'') \<or>
        \<not> truthy (getp body ''firstName'') \<or> \<not> truthy (getp body ''lastName'')
     then (s, reply 400 ''Missing required fields'')
     else
       (case registerUser B e s (register_fields body) of
          (s', Inr (user, verificationToken)) \<Rightarrow>
            (s', \<lparr>status = 201,
                  body_message = Some ''User registered successfully. Please check your email to verify your account.'',
                  body_user = Some (toJSON user), body_token = None\<rparr>)
        | (s', Inl err) \<Rightarrow>
            if message err = ''User with this email already exists'' then (s', reply 409 (message err))
            else if str_includes (message err) ''Password must be'' then (s', reply 400 (message err))
            else (s', reply 500 ''Failed to register user'')))"

definition AuthController_login :: "bcrypt \<Rightarrow> config \<Rightarrow> env \<Rightarrow> store \<Rightarrow> jsobj \<Rightarrow> response" where
  "AuthController_login B cfg e s body =
    (if \<not> truthy (getp body ''email'') \<or> \<not> truthy (getp body ''password'')
     then reply 400 ''Email and password are required''
     else
       (case loginUser B cfg e s (getp body ''email'') (getp body ''password'') of
          Inr (user, token) \<Rightarrow>
            \<lparr>status = 200, body_message = Some ''Login successful'',
             body_user = Some user, body_token = Some token\<rparr>
        | Inl err \<Rightarrow>
            if message err = ''Invalid email or password'' \<or>
               message err = ''Please verify your email before logging in''
            then reply 401 (message err)
            else reply 500 ''Failed to login''))"

definition AuthController_verifyEmail :: "env \<Rightarrow> store \<Rightarrow> jsval \<Rightarrow> store \<times> response" where
  "AuthController_verifyEmail e s token =
    (if \<not> truthy token then (s, reply 400 ''Verification token is required'')
     else
       (case UserService_verifyEmail e s token of
          (s', Inr user) \<Rightarrow>
            (s', \<lparr>status = 200, body_message = Some ''Email verified successfully'',
                  body_user = Some (toJSON user), body_token = None\<rparr>)
        | (s', Inl err) \<Rightarrow>
            if message err = ''Invalid or expired verification token'' then (s', reply 400 (message err))
            else (s', reply 500 ''Failed to verify email'')))"

definition generic_reset_message :: string where
  "generic_reset_message =
     ''If your email exists in our system, you will receive a password reset link''"

definition AuthController_requestPasswordReset :: "env \<Rightarrow> store \<Rightarrow> jsobj \<Rightarrow> store \<times> response" where
  "AuthController_requestPasswordReset e s body =
    (if \<not> truthy (getp body ''email'') then (s, reply 400 ''Email is required'')
     else
       (case requestPasswordReset e s (getp body ''email'') of
          (s', Inr ok) \<Rightarrow> (s', reply 200 generic_reset_message)
        | (s', Inl err) \<Rightarrow> (s', reply 500 ''Failed to process password reset request'')))"

definition AuthController_resetPassword :: "bcrypt \<Rightarrow> env \<Rightarrow> store \<Rightarrow> jsobj \<Rightarrow> store \<times> response" where
  "AuthController_resetPassword B e s body =
    (if \<not> truthy (getp body ''token'') \<or> \<not> truthy (getp body ''password'')
     then (s, reply 400 ''Token and password are required'')
     else
       (case resetPassword B e s (getp body ''token'') (getp body ''password'') of
          (s', Inr ok) \<Rightarrow> (s', reply 200 ''Password reset successfully'')
        | (s', Inl err) \<Rightarrow>
            if message err = ''Invalid or expired reset token'' \<or>
               str_includes (message err) ''Password must be''
            then (s', reply 400 (message err))
            else (s', reply 500 ''Failed to reset password'')))"

text \<open>The handlers behind the session guard read \<open>req.user.id\<close>.\<close>

definition UserController_getCurrentUser :: "env \<Rightarrow> store \<Rightarrow> jsobj \<Rightarrow> response" where
  "UserController_getCurrentUser e s req_user =
    (case findById e s (getp req_user ''id'') of
       Inl err \<Rightarrow> reply 500 ''Failed to fetch user profile''
     | Inr None \<Rightarrow> reply 404 ''User not found''
     | Inr (Some user) \<Rightarrow>
         \<lparr>status = 200, body_message = None, body_user = Some (toJSON user), body_token = None\<rparr>)"

definition UserController_updateProfile ::
  "env \<Rightarrow> store \<Rightarrow> jsobj \<Rightarrow> jsobj \<Rightarrow> store \<times> response" where
  "UserController_updateProfile e s req_user body =
    (case updateProfile e s (getp req_user ''id'')
            [(''firstName'', getp body ''firstName''), (''lastName'', getp body ''lastName''),
             (''phone'', getp body ''phone''), (''businessName'', getp body ''businessName'')] of
       (s', Inr updatedUser) \<Rightarrow>
         (s', \<lparr>status = 200, body_message = Some ''Profile updated successfully'',
               body_user = Some (toJSON updatedUser), body_token = None\<rparr>)
     | (s', Inl err) \<Rightarrow> (s', reply 500 ''Failed to update profile''))"

definition UserController_getUserById :: "env \<Rightarrow> store \<Rightarrow> jsval \<Rightarrow> response" where
  "UserController_getUserById e s userId =
    (case findById e s userId of
       Inl err \<Rightarrow> reply 500 ''Failed to fetch user profile''
     | Inr None \<Rightarrow> reply 404 ''User not found''
     | Inr (Some user) \<Rightarrow>
         \<lparr>status = 200, body_message = None,
          body_user = Some [(''id'', getp user ''id''), (''firstName'', getp user ''firstName''),
                            (''lastName'', getp user ''lastName''),
                            (''businessName'', getp user ''businessName''),
                            (''userType'', getp user ''userType'')],
          body_token = None\<rparr>)"

text \<open>A response keeps the secrets out when the user view it carries, if any, has none of the three properties.\<close>

definition omits_secrets :: "response \<Rightarrow> bool" where
  "omits_secrets res =
     (case body_user res of
        None \<Rightarrow> True
      | Some view \<Rightarrow> keys view \<inter> {''passwordHash'', ''verificationToken'', ''resetPasswordToken''} = {})"


section \<open>Sample data\<close>

text \<open>
  Concrete inputs at which the theorems below are instantiated. \<open>stub_bcrypt\<close> stands in for the
  hashing library there: it keeps salt and data readable behind the version prefix and compares
  accordingly, so that a string without the prefix (the empty string among them) matches nothing.
\<close>

definition stub_bcrypt :: bcrypt where
  "stub_bcrypt =
     \<lparr>bc_hash = (\<lambda>data salt. ''$2b$10$'' @ salt @ data),
      bc_compare = (\<lambda>data encrypted.
         take 7 encrypted = ''$2b$10$'' \<and> length data + 7 \<le> length encrypted \<and>
         drop (length encrypted - length data) encrypted = data)\<rparr>"

definition uuid1 :: uuid where
  "uuid1 =
     ((X1, X1, X1, X1), (X1, X1, X1, X1), (X1, X1, X1, X1), (X1, X1, X1, X1),
      (X1, X1, X1, X1), (X1, X1, X1, X1), (X1, X1, X1, X1), (X1, X1, X1, X1))"

definition uuid2 :: uuid where
  "uuid2 =
     ((X2, X2, X2, X2), (X2, X2, X2, X2), (X2, X2, X2, X2), (X2, X2, X2, X2),
      (X2, X2, X2, X2), (X2, X2, X2, X2), (X2, X2, X2, X2), (X2, X2, X2, X2))"

definition id1 :: string where
  "id1 = ''11111111-1111-1111-1111-111111111111''"

definition id2 :: string where
  "id2 = ''22222222-2222-2222-2222-222222222222''"

definition env1 :: env where
  "env1 = \<lparr>now = 1000, uuidv4 = uuid1, random = (\<lambda>i. i), salt = ''NaCl'', mail_ok = True\<rparr>"

definition cfg1 :: config where
  "cfg1 = \<lparr>jwtSecret = ''your-secret-key'', jwtExpiresIn = ''1d''\<rparr>"

definition alice :: db_row where
  "alice = \<lparr>row_id = uuid1, email = ''alice@example.com'',
      password_hash = ''$2b$10$NaClPassword123'', first_name = ''Alice'',
      last_name = ''A'', phone = None, user_type = ''buyer'',
      business_name = None, created_at = 1000, updated_at = 1000,
      is_verified = True, verification_token = None,
      reset_password_token = None, reset_password_expires = None\<rparr>"

definition token1 :: string where
  "token1 = ''000102030405060708090a0b0c0d0e0f101112131415161718191a1b1c1d1e1f''"

definition alice_registration :: jsobj where
  "alice_registration =
     [(''email'', Str ''alice@example.com''), (''password'', Str ''Password123''),
      (''firstName'', Str ''Alice''), (''lastName'', Str ''A''), (''phone'', Undefined),
      (''userType'', Undefined), (''businessName'', Undefined)]"

definition alice_pending :: db_row where
  "alice_pending = alice\<lparr>is_verified := False, verification_token := Some token1\<rparr>"

definition env_mail_down :: env where
  "env_mail_down = env1\<lparr>mail_ok := False\<rparr>"

definition env2 :: env where
  "env2 = env1\<lparr>now := 2000\<rparr>"

definition alice_resetting :: db_row where
  "alice_resetting = alice\<lparr>reset_password_token := Some token1, reset_password_expires := Some 5000\<rparr>"

definition env3 :: env where
  "env3 = env1\<lparr>now := 6000\<rparr>"

definition alice_reset :: db_row where
  "alice_reset = alice\<lparr>password_hash := ''$2b$10$NaClNewPassword1''\<rparr>"

definition env4 :: env where
  "env4 = env1\<lparr>now := 2000, uuidv4 := uuid2\<rparr>"

text \<open>An email of 266 characters of which the last 261 are spaces, and the row it is stored as.\<close>

definition padded_email :: string where
  "padded_email = ''a@b.c'' @ replicate 261 (CHR '' '')"

definition padded_registration :: jsobj where
  "padded_registration =
     [(''email'', Str padded_email), (''password'', Str ''Password123''),
      (''firstName'', Str ''Alice''), (''lastName'', Str ''A''), (''phone'', Undefined),
      (''userType'', Undefined), (''businessName'', Undefined)]"

definition padded_pending :: db_row where
  "padded_pending = alice_pending\<lparr>email := take 255 padded_email\<rparr>"


section \<open>Reading back a printed UUID\<close>

lemma hex_val_hex_char: "hex_val (hex_char d) = Some d"
  by (cases d) (simp_all add: hex_val_def)

lemma hex_char_not_hyphen: "hex_char d \<noteq> CHR ''-''"
  by (cases d) simp_all

lemma hex_char_not_brace: "hex_char d \<noteq> CHR ''{''"
  by (cases d) simp_all

lemma parse_quad_then_quad:
  "parse_quad h (quad_out q @ quad_out q' @ rest) = Some (q, quad_out q' @ rest)"
proof -
  obtain a b c d where q: "q = (a, b, c, d)" by (metis surj_pair)
  obtain a' b' c' d' where q': "q' = (a', b', c', d')" by (metis surj_pair)
  show ?thesis
    by (simp add: q q' hex_val_hex_char hex_char_not_hyphen)
qed

lemma parse_quad_then_last:
  "parse_quad h (quad_out q @ quad_out q') = Some (q, quad_out q')"
  using parse_quad_then_quad [of h q q' "[]"] by simp

lemma parse_quad_then_hyphen:
  "parse_quad True (quad_out q @ CHR ''-'' # rest) = Some (q, rest)"
proof -
  obtain a b c d where q: "q = (a, b, c, d)" by (metis surj_pair)
  show ?thesis
    by (simp add: q hex_val_hex_char)
qed

lemma parse_quad_last: "parse_quad h (quad_out q) = Some (q, [])"
proof -
  obtain a b c d where q: "q = (a, b, c, d)" by (metis surj_pair)
  show ?thesis
    by (simp add: q hex_val_hex_char)
qed

lemma parse_quads_uuid_out: "parse_quads (uuid_out u) = Some (u, [])"
proof -
  obtain q1 q2 q3 q4 q5 q6 q7 q8 where u: "u = (q1, q2, q3, q4, q5, q6, q7, q8)"
    by (metis surj_pair)
  show ?thesis
    unfolding u uuid_out.simps parse_quads_def
    by (simp add: parse_quad_then_quad parse_quad_then_last parse_quad_then_hyphen parse_quad_last
        del: parse_quad.simps quad_out.simps)
qed

lemma uuid_out_Cons: "\<exists>c cs. uuid_out u = c # cs \<and> c \<noteq> CHR ''{''"
proof -
  obtain q1 r where u: "u = (q1, r)" by (metis surj_pair)
  obtain a b c d where q: "q1 = (a, b, c, d)" by (metis surj_pair)
  obtain q2 q3 q4 q5 q6 q7 q8 where r: "r = (q2, q3, q4, q5, q6, q7, q8)"
    by (metis surj_pair)
  show ?thesis
    by (simp add: u q r hex_char_not_brace del: hex_char.simps)
qed

lemma parse_uuid_out: "parse_uuid (uuid_out u) = Some u"
proof -
  obtain c cs where eq: "uuid_out u = c # cs" and c: "c \<noteq> CHR ''{''"
    using uuid_out_Cons by blast
  have "parse_quads (c # cs) = Some (u, [])"
    using parse_quads_uuid_out [of u] by (simp add: eq)
  then show ?thesis
    by (simp add: parse_uuid_def eq c)
qed

lemma uuid_out_nonempty: "uuid_out u \<noteq> []"
  using uuid_out_Cons [of u] by auto

lemma uuid_param_out: "uuid_param (sql_param (Str (uuid_out u))) = Inr (Some u)"
  by (simp add: parse_uuid_out)

section \<open>Properties of the lookups\<close>

lemma getp_row_obj_camel:
  "getp (row_obj r) ''passwordHash'' = Undefined"
  "getp (row_obj r) ''isVerified'' = Undefined"
  by (simp_all add: getp_def row_obj_def)

lemma User_row_obj_passwordHash: "getp (User e (row_obj r)) ''passwordHash'' = Str []"
  by (simp add: User_def getp_def or_else_def row_obj_def)

lemma User_row_obj_isVerified: "getp (User e (row_obj r)) ''isVerified'' = Bool False"
  by (simp add: User_def getp_def or_else_def row_obj_def)

lemma User_row_obj_id: "getp (User e (row_obj r)) ''id'' = Str (uuid_out (row_id r))"
  by (simp add: User_def getp_def or_else_def row_obj_def uuid_out_nonempty)

lemma User_row_obj_email: "getp (User e (row_obj r)) ''email'' = Str (email r)"
  by (simp add: User_def getp_def or_else_def row_obj_def)

lemma findById_Some:
  "findById e s i = Inr (Some u) \<Longrightarrow>
   \<exists>r \<in> set s. uuid_param (sql_param i) = Inr (Some (row_id r)) \<and> u = User e (row_obj r)"
proof -
  assume a: "findById e s i = Inr (Some u)"
  then obtain p r rest where p: "uuid_param (sql_param i) = Inr p"
    and f: "filter (\<lambda>r. p = Some (row_id r)) s = r # rest"
    and u: "u = User e (row_obj r)"
    by (auto simp: findById_def split: sum.splits list.splits)
  from f have "r \<in> set (filter (\<lambda>r. p = Some (row_id r)) s)" by simp
  then show ?thesis using u p by auto
qed

lemma findByEmail_Some:
  "findByEmail e s em = Some u \<Longrightarrow> \<exists>r \<in> set s. text_eq (email r) (sql_param em) \<and> u = User e (row_obj r)"
proof -
  assume a: "findByEmail e s em = Some u"
  then obtain r rest where f: "filter (\<lambda>r. text_eq (email r) (sql_param em)) s = r # rest"
    and u: "u = User e (row_obj r)"
    by (auto simp: findByEmail_def split: list.splits)
  from f have "r \<in> set (filter (\<lambda>r. text_eq (email r) (sql_param em)) s)" by simp
  then show ?thesis using u by auto
qed

lemma findById_present:
  "r \<in> set s \<Longrightarrow> \<exists>u. findById e s (Str (uuid_out (row_id r))) = Inr (Some u)"
proof -
  assume "r \<in> set s"
  then have "r \<in> set (filter (\<lambda>x. Some (row_id r) = Some (row_id x)) s)"
    by simp
  then have "filter (\<lambda>x. Some (row_id r) = Some (row_id x)) s \<noteq> []"
    by (metis empty_iff list.set(1))
  then show ?thesis
    unfolding findById_def uuid_param_out
    by (auto split: list.splits)
qed

lemma findByEmail_present:
  "r \<in> set s \<Longrightarrow> \<exists>u. findByEmail e s (Str (email r)) = Some u"
proof -
  assume "r \<in> set s"
  then have "r \<in> set (filter (\<lambda>x. text_eq (email x) (sql_param (Str (email r)))) s)"
    by (simp add: text_eq_def)
  then have "filter (\<lambda>x. text_eq (email x) (sql_param (Str (email r)))) s \<noteq> []"
    by (metis empty_iff list.set(1))
  then show ?thesis by (auto simp: findByEmail_def split: list.splits)
qed

lemma User_mapped_fields:
  "getp (User e (mapDbUserToModel (row_obj r))) ''passwordHash'' = Str (password_hash r)"
  "getp (User e (mapDbUserToModel (row_obj r))) ''isVerified'' = Bool (is_verified r)"
  by (simp_all add: User_def getp_def or_else_def row_obj_def mapDbUserToModel_def)

text \<open>
  C2. For every row of the store, \<open>findById\<close> and \<open>findByEmail\<close> find it and return a User whose
  \<open>passwordHash\<close> is the empty string and whose \<open>isVerified\<close> is false, whatever the columns
  \<open>password_hash\<close> and \<open>is_verified\<close> hold: the raw row has no property of the camel-case names,
  so the defaults of the constructor apply. The same row taken through \<open>mapDbUserToModel\<close>, as
  \<open>create\<close>, \<open>update\<close> and \<open>verifyEmail\<close> do, keeps both stored values.
\<close>

theorem lookups_drop_hash_and_verified:
  assumes "r \<in> set s"
  shows "(\<exists>u. findById e s (Str (uuid_out (row_id r))) = Inr (Some u)) \<and>
         (\<exists>u. findByEmail e s (Str (email r)) = Some u) \<and>
         (\<forall>i u. findById e s i = Inr (Some u) \<longrightarrow>
            getp u ''passwordHash'' = Str [] \<and> getp u ''isVerified'' = Bool False) \<and>
         (\<forall>em u. findByEmail e s em = Some u \<longrightarrow>
            getp u ''passwordHash'' = Str [] \<and> getp u ''isVerified'' = Bool False) \<and>
         getp (User e (mapDbUserToModel (row_obj r))) ''passwordHash'' = Str (password_hash r) \<and>
         getp (User e (mapDbUserToModel (row_obj r))) ''isVerified'' = Bool (is_verified r)"
proof -
  have a: "\<exists>u. findById e s (Str (uuid_out (row_id r))) = Inr (Some u)"
    using assms by (rule findById_present)
  have b: "\<exists>u. findByEmail e s (Str (email r)) = Some u"
    using assms by (rule findByEmail_present)
  have c: "\<forall>i u. findById e s i = Inr (Some u) \<longrightarrow>
            getp u ''passwordHash'' = Str [] \<and> getp u ''isVerified'' = Bool False"
    using findById_Some User_row_obj_passwordHash User_row_obj_isVerified by blast
  have d: "\<forall>em u. findByEmail e s em = Some u \<longrightarrow>
            getp u ''passwordHash'' = Str [] \<and> getp u ''isVerified'' = Bool False"
    using findByEmail_Some User_row_obj_passwordHash User_row_obj_isVerified by blast
  show ?thesis using a b c d User_mapped_fields by blast
qed

theorem lookups_drop_hash_and_verified_witness:
  "alice \<in> set [alice] \<and> password_hash alice \<noteq> [] \<and> is_verified alice \<and>
   (\<exists>u. findById env1 [alice] (Str id1) = Inr (Some u) \<and>
        getp u ''passwordHash'' = Str [] \<and> getp u ''isVerified'' = Bool False) \<and>
   (\<exists>u. findByEmail env1 [alice] (Str ''alice@example.com'') = Some u \<and>
        getp u ''passwordHash'' = Str [] \<and> getp u ''isVerified'' = Bool False)"
proof -
  have m: "alice \<in> set [alice]" by simp
  have i: "uuid_out (row_id alice) = id1"
    by code_simp
  have f: "email alice = ''alice@example.com''"
    "password_hash alice \<noteq> []" "is_verified alice"
    by (simp_all add: alice_def)
  from lookups_drop_hash_and_verified [OF m, of env1] i f show ?thesis
    by (metis m)
qed

section \<open>Login\<close>

lemma loginUser_never_succeeds: "loginUser B cfg e s em pw \<noteq> Inr x"
proof (cases "findByEmail e s em")
  case None
  then show ?thesis by (simp add: loginUser_def)
next
  case (Some u)
  then obtain r' where "u = User e (row_obj r')"
    using findByEmail_Some by blast
  then have v: "getp u ''isVerified'' = Bool False"
    by (simp add: User_row_obj_isVerified)
  show ?thesis
    by (simp add: loginUser_def Some v split: sum.splits)
qed

section \<open>Assignments, updates and objects\<close>

lemma map_sum_eq_Inr: "map_sum f g x = Inr b \<longleftrightarrow> (\<exists>y. x = Inr y \<and> b = g y)"
  by (cases x) auto

lemma map_of_set_prop_map:
  "map_of (map (\<lambda>(a, b). if a = k then (a, v) else (a, b)) obj) x =
     (if x = k \<and> k \<in> fst ` set obj then Some v else map_of obj x)"
proof (induction obj)
  case Nil
  then show ?case by simp
next
  case (Cons p obj)
  obtain a b where p: "p = (a, b)" by (cases p)
  show ?case
  proof (cases "a = k")
    case True
    then show ?thesis using Cons.IH p by (cases "x = k") simp_all
  next
    case False
    then show ?thesis using Cons.IH p by (cases "x = k") auto
  qed
qed

lemma getp_set_prop: "getp (set_prop k v obj) k' = (if k' = k then v else getp obj k')"
proof (cases "k \<in> fst ` set obj")
  case True
  then show ?thesis
    by (simp add: getp_def set_prop_def map_of_set_prop_map)
next
  case False
  then have "map_of obj k = None"
    by (simp add: map_of_eq_None_iff)
  with False show ?thesis
    by (auto simp: getp_def set_prop_def map_add_def split: option.splits)
qed

lemma assign_frame:
  assumes "assign c v r = Inr r'"
  shows "(c \<noteq> ''id'' \<longrightarrow> row_id r' = row_id r)"
    "(c \<noteq> ''email'' \<longrightarrow> email r' = email r)"
    "(c \<noteq> ''password_hash'' \<longrightarrow> password_hash r' = password_hash r)"
    "(c \<noteq> ''user_type'' \<longrightarrow> user_type r' = user_type r)"
    "(c \<noteq> ''created_at'' \<longrightarrow> created_at r' = created_at r)"
    "(c \<noteq> ''is_verified'' \<longrightarrow> is_verified r' = is_verified r)"
    "(c \<noteq> ''verification_token'' \<longrightarrow> verification_token r' = verification_token r)"
    "(c \<noteq> ''reset_password_token'' \<longrightarrow> reset_password_token r' = reset_password_token r)"
    "(c \<noteq> ''reset_password_expires'' \<longrightarrow> reset_password_expires r' = reset_password_expires r)"
  using assms
  by (auto simp: assign_def map_sum_eq_Inr split: if_splits)

lemma assign_all_frame:
  assumes step: "\<And>c v r r'. assign c v r = Inr r' \<Longrightarrow> c \<noteq> c0 \<Longrightarrow> g r' = g r"
  shows "assign_all as r = Inr r' \<Longrightarrow> c0 \<notin> fst ` set as \<Longrightarrow> g r' = g r"
proof (induction as arbitrary: r)
  case Nil
  then show ?case by simp
next
  case (Cons a as)
  obtain c v where a: "a = (c, v)" by (cases a)
  from Cons.prems(1) a obtain r1 where r1: "assign c v r = Inr r1" and rest: "assign_all as r1 = Inr r'"
    by (auto split: sum.splits)
  from Cons.prems(2) a have "c \<noteq> c0" and "c0 \<notin> fst ` set as" by auto
  then show ?case using step [OF r1] Cons.IH [OF rest] by simp
qed

lemma update_rows_total:
  "\<forall>r \<in> set s. P r \<longrightarrow> f r = Inr (g r) \<Longrightarrow>
   update_rows P f s = Inr (map (\<lambda>r. if P r then g r else r) s, map g (filter P s))"
  by (induction s) auto


lemma update_rows_none:
  "\<forall>r \<in> set s. \<not> P r \<Longrightarrow> update_rows P f s = Inr (s, [])"
  by (induction s) auto

lemma snake_case_keys:
  "snake_case ''firstName'' = ''first_name''"
  "snake_case ''lastName'' = ''last_name''"
  "snake_case ''phone'' = ''phone''"
  "snake_case ''businessName'' = ''business_name''"
  "snake_case ''passwordHash'' = ''password_hash''"
  "snake_case ''resetPasswordToken'' = ''reset_password_token''"
  "snake_case ''resetPasswordExpires'' = ''reset_password_expires''"
  by (simp_all add: snake_case_def is_upper_def to_lower_def)

lemma setFields_reset_request:
  "setFields [(''resetPasswordToken'', a), (''resetPasswordExpires'', b)] =
     [(''reset_password_token'', sql_param a), (''reset_password_expires'', sql_param b)]"
  by (simp add: setFields_def snake_case_keys validFields_def)

lemma setFields_reset:
  "setFields [(''passwordHash'', a), (''resetPasswordToken'', b), (''resetPasswordExpires'', c)] =
     [(''password_hash'', sql_param a), (''reset_password_token'', sql_param b),
      (''reset_password_expires'', sql_param c)]"
  by (simp add: setFields_def snake_case_keys validFields_def)


lemma length_generateToken: "length (generateToken e) = 64"
proof -
  have "\<And>xs. length (concat (map (\<lambda>i. hex_byte (random e i)) xs)) = 2 * length xs"
    by (induct_tac xs) (simp_all add: hex_byte_def)
  then show ?thesis by (simp add: generateToken_def)
qed

section \<open>Registration, verification and login\<close>

lemma findByEmail_match:
  "r \<in> set s \<Longrightarrow> text_eq (email r) (sql_param em) \<Longrightarrow> \<exists>u. findByEmail e s em = Some u"
proof -
  assume "r \<in> set s" "text_eq (email r) (sql_param em)"
  then have "r \<in> set (filter (\<lambda>x. text_eq (email x) (sql_param em)) s)"
    by simp
  then have "filter (\<lambda>x. text_eq (email x) (sql_param em)) s \<noteq> []"
    by (metis empty_iff list.set(1))
  then show ?thesis by (auto simp: findByEmail_def split: list.splits)
qed

lemma loginUser_known_email:
  assumes "r \<in> set s" and "text_eq (email r) (sql_param em)"
  shows "loginUser B cfg e s em (Str pw) =
           Inl (if bc_compare B pw [] then email_not_verified else invalid_credentials)"
proof -
  obtain u where u: "findByEmail e s em = Some u"
    using findByEmail_match [OF assms] by blast
  then obtain r' where "u = User e (row_obj r')"
    using findByEmail_Some by blast
  then have h: "getp u ''passwordHash'' = Str []" and v: "getp u ''isVerified'' = Bool False"
    by (simp_all add: User_row_obj_passwordHash User_row_obj_isVerified)
  show ?thesis
    by (simp add: loginUser_def u verifyPassword_def h v)
qed

lemma create_success:
  assumes "UserRepository_create e s user = (s', Inr saved)"
  shows "\<exists>r. s' = s @ [r] \<and> assign_all (insert_values user) blank_row = Inr r \<and>
             saved = User e (mapDbUserToModel (row_obj r)) \<and>
             (\<forall>x \<in> set s. row_id x \<noteq> row_id r \<and> email x \<noteq> email r)"
  using assms
  by (auto simp: UserRepository_create_def split: sum.splits if_splits)

lemma fit_Inr:
  "fit n t = Inr x \<Longrightarrow> (length t \<le> n \<and> x = t) \<or> (n < length t \<and> x = take n t)"
  by (auto simp: fit_def split: if_splits)

lemma varchar_Inr: "varchar n v = Inr x \<Longrightarrow> \<exists>t. v = SText t \<and> fit n t = Inr x"
  by (cases v) auto

lemma insert_email:
  assumes "assign_all (insert_values user) blank_row = Inr r"
  shows "\<exists>t. sql_param (getp user ''email'') = SText t \<and> fit 255 t = Inr (email r)"
proof -
  let ?rest = "drop 2 (insert_values user)"
  from assms obtain r0 r1 where
    r1: "assign ''email'' (sql_param (getp user ''email'')) r0 = Inr r1"
    and rest: "assign_all ?rest r1 = Inr r"
    by (auto simp: insert_values_def split: sum.splits)
  have "''email'' \<notin> fst ` set ?rest"
    by (simp add: insert_values_def)
  then have "email r = email r1"
    using assign_all_frame [where ?c0.0 = "''email''" and g = email, OF _ rest] assign_frame(2)
    by blast
  moreover from r1 have "\<exists>t. sql_param (getp user ''email'') = SText t \<and> fit 255 t = Inr (email r1)"
    by (auto simp: assign_def map_sum_eq_Inr dest: varchar_Inr)
  ultimately show ?thesis by simp
qed

lemma findByEmail_None:
  "findByEmail e s em = None \<longleftrightarrow> (\<forall>r \<in> set s. \<not> text_eq (email r) (sql_param em))"
proof -
  have "findByEmail e s em = None \<longleftrightarrow> filter (\<lambda>r. text_eq (email r) (sql_param em)) s = []"
    by (simp add: findByEmail_def split: list.splits)
  then show ?thesis
    by (simp add: filter_empty_conv)
qed

lemma bcrypt_hash_Inr: "bcrypt_hash B e v = Inr h \<Longrightarrow> \<exists>pw. v = Str pw"
  by (cases v) auto

lemma getp_User_email: "getp (User e data) ''email'' = getp data ''email''"
  by (simp add: User_def getp_def)

lemma registerUser_success:
  assumes "registerUser B e s userData = (s1, Inr (user, tok))"
  shows "\<exists>r pw t. s1 = s @ [r] \<and> sql_param (getp userData ''email'') = SText t \<and>
                fit 255 t = Inr (email r) \<and> getp userData ''password'' = Str pw \<and>
                validatePassword (Str pw) = None \<and>
                (\<forall>x \<in> set s. email x \<noteq> email r \<and> email x \<noteq> t)"
proof -
  let ?data = "set_prop ''isVerified'' (Bool False)
                 (set_prop ''verificationToken'' (Str (generateToken e)) userData)"
  from assms obtain u saved where
    nf: "findByEmail e s (getp userData ''email'') = None"
    and vp: "validatePassword (getp userData ''password'') = None"
    and uc: "User_create B e ?data = Inr u"
    and cr: "UserRepository_create e s u = (s1, Inr saved)"
    by (auto simp: registerUser_def Let_def split: option.splits sum.splits prod.splits)
  from uc obtain h where h: "bcrypt_hash B e (getp ?data ''password'') = Inr h"
    and u: "u = User e (set_prop ''passwordHash'' (Str h) ?data)"
    by (auto simp: User_create_def split: sum.splits)
  from h obtain pw where pw: "getp userData ''password'' = Str pw"
    using bcrypt_hash_Inr by (fastforce simp: getp_set_prop)
  from cr obtain r where r: "s1 = s @ [r]" "assign_all (insert_values u) blank_row = Inr r"
    "\<forall>x \<in> set s. row_id x \<noteq> row_id r \<and> email x \<noteq> email r"
    using create_success by blast
  have "getp u ''email'' = getp userData ''email''"
    by (simp add: u getp_User_email getp_set_prop)
  with insert_email [OF r(2)] obtain t where
    t: "sql_param (getp userData ''email'') = SText t" "fit 255 t = Inr (email r)"
    by auto
  from nf t(1) have "\<forall>x \<in> set s. email x \<noteq> t"
    by (auto simp: findByEmail_None text_eq_def)
  with r t pw vp show ?thesis by auto
qed

lemma verifyEmail_store:
  "UserRepository_verifyEmail e s tok =
     (map (\<lambda>r. if holds_verification_token (sql_param tok) r
                then r\<lparr>is_verified := True, verification_token := None, updated_at := now e\<rparr>
                else r) s,
      case filter (holds_verification_token (sql_param tok)) s of
        [] \<Rightarrow> None
      | r # rest \<Rightarrow> Some (User e (mapDbUserToModel
            (row_obj (r\<lparr>is_verified := True, verification_token := None, updated_at := now e\<rparr>)))))"
proof -
  have "update_rows (holds_verification_token (sql_param tok))
          (\<lambda>r. Inr (r\<lparr>is_verified := True, verification_token := None, updated_at := now e\<rparr>)) s =
        Inr (map (\<lambda>r. if holds_verification_token (sql_param tok) r
                then r\<lparr>is_verified := True, verification_token := None, updated_at := now e\<rparr>
                else r) s,
             map (\<lambda>r. r\<lparr>is_verified := True, verification_token := None, updated_at := now e\<rparr>)
               (filter (holds_verification_token (sql_param tok)) s))"
    by (rule update_rows_total) simp
  then show ?thesis
    by (simp add: UserRepository_verifyEmail_def split: list.splits)
qed

lemma verifyEmail_emails:
  "map email (fst (UserRepository_verifyEmail e s tok)) = map email s"
  by (simp add: verifyEmail_store)

lemma UserService_verifyEmail_emails:
  "map email (fst (UserService_verifyEmail e s tok)) = map email s"
proof -
  obtain s' res where x: "UserRepository_verifyEmail e s tok = (s', res)"
    by (cases "UserRepository_verifyEmail e s tok")
  with verifyEmail_emails [of e s tok] have "map email s' = map email s" by simp
  then show ?thesis
    by (cases res) (simp_all add: UserService_verifyEmail_def x)
qed


text \<open>
  C1. Register, then VerifyEmail with the token of that registration, then Login with the same
  email and password: the claim expects a session token for the registered user. On the code
  the login fails. \<open>loginUser\<close> reads the user through \<open>findByEmail\<close>, which leaves
  \<open>passwordHash\<close> empty and \<open>isVerified\<close> false, so the password is compared with the empty
  string: the result is the invalid-credentials error when the library rejects the empty hash,
  and the not-verified error otherwise; no token is issued. (An email longer than the column
  is stored cut, is not found again, and ends in the invalid-credentials error as well.)
\<close>

theorem roundtrip_login_fails:
  assumes reg: "registerUser B e1 s userData = (s1, Inr (user, tok))"
    and ver: "UserService_verifyEmail e2 s1 (Str tok) = (s2, Inr verified)"
  shows "\<exists>pw t. getp userData ''password'' = Str pw \<and>
           sql_param (getp userData ''email'') = SText t \<and>
           loginUser B cfg e3 s2 (getp userData ''email'') (getp userData ''password'') =
             Inl (if length t \<le> 255 \<and> bc_compare B pw [] then email_not_verified
                  else invalid_credentials)"
proof -
  from registerUser_success [OF reg] obtain r pw t where
    s1: "s1 = s @ [r]" and em: "sql_param (getp userData ''email'') = SText t"
    and fit: "fit 255 t = Inr (email r)"
    and pw: "getp userData ''password'' = Str pw"
    and old: "\<forall>x \<in> set s. email x \<noteq> t"
    by blast
  have emails: "map email s2 = map email s1"
    using UserService_verifyEmail_emails [of e2 s1 "Str tok"] ver by simp
  have "loginUser B cfg e3 s2 (getp userData ''email'') (Str pw) =
             Inl (if length t \<le> 255 \<and> bc_compare B pw [] then email_not_verified
                  else invalid_credentials)"
  proof (cases "length t \<le> 255")
    case True
    with fit have "email r = t" by (simp add: fit_def)
    then have "t \<in> set (map email s2)"
      using emails s1 by simp
    then obtain r2 where r2: "r2 \<in> set s2" "email r2 = t"
      by auto
    then have "text_eq (email r2) (sql_param (getp userData ''email''))"
      by (simp add: text_eq_def em)
    from loginUser_known_email [OF r2(1) this] True show ?thesis by simp
  next
    case False
    with fit_Inr [OF fit] have "email r = take 255 t" by auto
    with False have "email r \<noteq> t"
      by (metis length_take min.absorb2 nat_le_linear)
    with old s1 have "t \<notin> set (map email s1)" by auto
    then have "\<forall>x \<in> set s2. email x \<noteq> t"
      using emails by (metis image_eqI list.set_map)
    then have "findByEmail e3 s2 (getp userData ''email'') = None"
      by (auto simp: findByEmail_None text_eq_def em)
    with False show ?thesis
      by (simp add: loginUser_def)
  qed
  with pw em show ?thesis by auto
qed

theorem roundtrip_login_fails_witness:
  "registerUser stub_bcrypt env1 [] alice_registration =
     ([alice_pending], Inr (User env1 (mapDbUserToModel (row_obj alice_pending)), token1)) \<and>
   UserService_verifyEmail env1 [alice_pending] (Str token1) =
     ([alice], Inr (User env1 (mapDbUserToModel (row_obj alice)))) \<and>
   is_verified alice \<and> bc_compare stub_bcrypt ''Password123'' (password_hash alice) \<and>
   loginUser stub_bcrypt cfg1 env1 [alice] (Str ''alice@example.com'') (Str ''Password123'') =
     Inl invalid_credentials"
proof -
  have reg: "registerUser stub_bcrypt env1 [] alice_registration =
     ([alice_pending], Inr (User env1 (mapDbUserToModel (row_obj alice_pending)), token1))"
    by code_simp
  have ver: "UserService_verifyEmail env1 [alice_pending] (Str token1) =
     ([alice], Inr (User env1 (mapDbUserToModel (row_obj alice))))"
    by code_simp
  have g: "getp alice_registration ''email'' = Str ''alice@example.com''"
    "getp alice_registration ''password'' = Str ''Password123''"
    by (simp_all add: alice_registration_def getp_def)
  have c: "\<not> bc_compare stub_bcrypt ''Password123'' []"
    by (simp add: stub_bcrypt_def)
  have d: "is_verified alice" "bc_compare stub_bcrypt ''Password123'' (password_hash alice)"
    by (simp_all add: alice_def stub_bcrypt_def)
  from roundtrip_login_fails [OF reg ver, of cfg1 env1] g c
  have "loginUser stub_bcrypt cfg1 env1 [alice] (Str ''alice@example.com'') (Str ''Password123'') =
     Inl invalid_credentials"
    by auto
  with reg ver d show ?thesis by simp
qed

text \<open>
  C3. A registered, unverified user whose stored hash matches the supplied password: the claim
  expects the not-verified error. On the code the supplied password is compared with the empty
  \<open>passwordHash\<close> that \<open>findByEmail\<close> leaves, so with a library that matches nothing against
  the empty hash the login ends in the invalid-credentials error, before \<open>isVerified\<close> is read.
\<close>

theorem unverified_login_reports_invalid_credentials:
  assumes "r \<in> set s" and "\<not> is_verified r" and "bc_compare B pw (password_hash r)"
    and "\<not> bc_compare B pw []"
  shows "loginUser B cfg e s (Str (email r)) (Str pw) = Inl invalid_credentials \<and>
         invalid_credentials \<noteq> email_not_verified"
proof -
  have "text_eq (email r) (sql_param (Str (email r)))"
    by (simp add: text_eq_def)
  from loginUser_known_email [OF assms(1) this, of B cfg e pw] assms(4)
  show ?thesis
    by (simp add: invalid_credentials_def email_not_verified_def)
qed

theorem unverified_login_reports_invalid_credentials_witness:
  "alice_pending \<in> set [alice_pending] \<and> \<not> is_verified alice_pending \<and>
   bc_compare stub_bcrypt ''Password123'' (password_hash alice_pending) \<and>
   \<not> bc_compare stub_bcrypt ''Password123'' [] \<and>
   loginUser stub_bcrypt cfg1 env1 [alice_pending] (Str ''alice@example.com'') (Str ''Password123'') =
     Inl invalid_credentials \<and>
   invalid_credentials \<noteq> email_not_verified"
proof -
  have a: "alice_pending \<in> set [alice_pending]" by simp
  have b: "\<not> is_verified alice_pending"
    by (simp add: alice_pending_def)
  have c: "bc_compare stub_bcrypt ''Password123'' (password_hash alice_pending)"
    by (simp add: alice_pending_def alice_def stub_bcrypt_def)
  have d: "\<not> bc_compare stub_bcrypt ''Password123'' []"
    by (simp add: stub_bcrypt_def)
  have e: "email alice_pending = ''alice@example.com''"
    by (simp add: alice_pending_def alice_def)
  from unverified_login_reports_invalid_credentials [OF a b c d, of cfg1 env1] a b c d e
  show ?thesis by simp
qed


lemma registerUser_existing:
  assumes "r \<in> set s" and "text_eq (email r) (sql_param (getp userData ''email''))"
  shows "registerUser B e s userData = (s, Inl email_exists)"
proof -
  obtain u where "findByEmail e s (getp userData ''email'') = Some u"
    using findByEmail_match [OF assms] by blast
  then show ?thesis by (simp add: registerUser_def)
qed

lemma getp_register_fields:
  "getp (register_fields body) ''email'' = getp body ''email''"
  "getp (register_fields body) ''password'' = getp body ''password''"
  by (simp_all add: register_fields_def getp_def)

lemma AuthController_register_existing:
  assumes "r \<in> set s" and "text_eq (email r) (sql_param (getp body ''email''))"
    and "truthy (getp body ''email'')" and "truthy (getp body ''password'')"
    and "truthy (getp body ''firstName'')" and "truthy (getp body ''lastName'')"
  shows "AuthController_register B e s body = (s, reply 409 ''User with this email already exists'')"
proof -
  from assms(2) have "text_eq (email r) (sql_param (getp (register_fields body) ''email''))"
    by (simp add: getp_register_fields)
  from registerUser_existing [OF assms(1) this]
  have "registerUser B e s (register_fields body) = (s, Inl email_exists)" .
  with assms(3-6) show ?thesis
    by (simp add: AuthController_register_def email_exists_def)
qed

lemma map_sum_eq_Inl: "map_sum f g x = Inl a \<longleftrightarrow> (\<exists>y. x = Inl y \<and> a = f y)"
  by (cases x) auto

lemma fit_Inl: "fit n t = Inl err \<Longrightarrow> err = too_long"
  by (auto simp: fit_def split: if_splits)

lemma varchar_Inl: "varchar n v = Inl err \<Longrightarrow> err \<in> server_errors"
  by (cases v) (auto simp: server_errors_def dest: fit_Inl)

lemma varchar_null_Inl: "varchar_null n v = Inl err \<Longrightarrow> err \<in> server_errors"
  by (cases v) (auto simp: server_errors_def map_sum_eq_Inl dest: fit_Inl)

lemma uuid_param_Inl: "uuid_param v = Inl err \<Longrightarrow> err = invalid_uuid"
  by (cases v) (auto split: option.splits)

lemma uuid_col_Inl: "uuid_col v = Inl err \<Longrightarrow> err \<in> server_errors"
  by (auto simp: uuid_col_def server_errors_def split: sum.splits option.splits
      dest: uuid_param_Inl)

lemma boolean_Inl: "boolean v = Inl err \<Longrightarrow> err \<in> server_errors"
  by (cases v) (auto simp: server_errors_def split: option.splits)

lemma timestamp_Inl: "timestamp v = Inl err \<Longrightarrow> err \<in> server_errors"
  by (cases v) (auto simp: server_errors_def)

lemma timestamp_null_Inl: "timestamp_null v = Inl err \<Longrightarrow> err \<in> server_errors"
  by (cases v) (auto simp: server_errors_def)

lemma assign_Inl:
  assumes "assign c v r = Inl err"
  shows "err \<in> server_errors"
proof -
  have col: "DatabaseError ''column does not exist'' \<in> server_errors"
    by (simp add: server_errors_def)
  from assms show ?thesis
    by (auto simp: assign_def map_sum_eq_Inl col split: if_splits
        dest: varchar_Inl varchar_null_Inl uuid_col_Inl boolean_Inl timestamp_Inl
          timestamp_null_Inl)
qed

lemma assign_all_Inl: "assign_all as r = Inl err \<Longrightarrow> err \<in> server_errors"
proof (induction as arbitrary: r)
  case Nil
  then show ?case by simp
next
  case (Cons a as)
  obtain c v where a: "a = (c, v)" by (cases a)
  show ?case
  proof (cases "assign c v r")
    case (Inl x)
    with Cons.prems a have "err = x" by simp
    with Inl show ?thesis using assign_Inl by blast
  next
    case (Inr r1)
    with Cons.prems a have "assign_all as r1 = Inl err" by simp
    then show ?thesis by (rule Cons.IH)
  qed
qed

lemma server_errors_unmapped:
  assumes "err \<in> server_errors"
  shows "message err \<noteq> ''User with this email already exists'' \<and>
         \<not> str_includes (message err) ''Password must be''"
proof -
  have "\<forall>x \<in> server_errors. message x \<noteq> ''User with this email already exists'' \<and>
         \<not> str_includes (message x) ''Password must be''"
    by code_simp
  with assms show ?thesis by blast
qed

lemma registerUser_cut_email_again:
  assumes reg: "registerUser B e1 s userData = (s1, Inr (user, tok))"
    and em: "sql_param (getp userData ''email'') = SText t"
    and long: "255 < length t"
    and emails: "map email s2 = map email s1"
  shows "\<exists>err. registerUser B e2 s2 userData = (s2, Inl err) \<and> err \<in> server_errors"
proof -
  from registerUser_success [OF reg] em obtain r pw where
    s1: "s1 = s @ [r]" and fit: "fit 255 t = Inr (email r)"
    and pw: "getp userData ''password'' = Str pw"
    and vp: "validatePassword (Str pw) = None"
    and old: "\<forall>x \<in> set s. email x \<noteq> t"
    by auto
  from fit_Inr [OF fit] long have cut: "email r = take 255 t" by auto
  with long have "email r \<noteq> t"
    by (metis length_take min.absorb2 nat_le_linear not_less)
  with old s1 have "t \<notin> set (map email s1)" by auto
  then have "\<forall>x \<in> set s2. email x \<noteq> t"
    using emails by (metis image_eqI list.set_map)
  then have nf: "findByEmail e2 s2 (getp userData ''email'') = None"
    by (auto simp: findByEmail_None text_eq_def em)
  let ?data = "set_prop ''isVerified'' (Bool False)
                 (set_prop ''verificationToken'' (Str (generateToken e2)) userData)"
  let ?u = "User e2 (set_prop ''passwordHash'' (Str (bc_hash B pw (salt e2))) ?data)"
  have uc: "User_create B e2 ?data = Inr ?u"
    by (simp add: User_create_def getp_set_prop pw)
  have ue: "getp ?u ''email'' = getp userData ''email''"
    by (simp add: getp_User_email getp_set_prop)
  have "\<exists>err. UserRepository_create e2 s2 ?u = (s2, Inl err) \<and> err \<in> server_errors"
  proof (cases "assign_all (insert_values ?u) blank_row")
    case (Inl err)
    then have "UserRepository_create e2 s2 ?u = (s2, Inl err)"
      by (simp add: UserRepository_create_def)
    with assign_all_Inl [OF Inl] show ?thesis by blast
  next
    case (Inr r2)
    from insert_email [OF Inr] ue em have "fit 255 t = Inr (email r2)" by auto
    with fit have "email r2 = email r" by simp
    moreover have "email r \<in> set (map email s2)"
      using emails s1 by simp
    ultimately have "\<exists>x \<in> set s2. email x = email r2" by auto
    with Inr have "UserRepository_create e2 s2 ?u = (s2, Inl unique_violation)"
      by (simp add: UserRepository_create_def)
    then show ?thesis by (simp add: server_errors_def)
  qed
  then obtain err where "UserRepository_create e2 s2 ?u = (s2, Inl err)" "err \<in> server_errors"
    by blast
  with nf pw vp uc show ?thesis
    by (simp add: registerUser_def Let_def)
qed

text \<open>
  C9. After a successful registration, a second registration with the same email -- whether or
  not the first account has been verified in between -- creates no second account. The claim
  expects Conflict (409) for every email. On the code that holds for an email that fits the
  column. An email longer than 255 characters whose excess is spaces is stored cut by the
  server; the second \<open>findByEmail\<close> looks for the uncut text and finds nothing, the \<open>INSERT\<close>
  runs into the unique constraint (or another refusal of the server), and the handler answers
  500.
\<close>

theorem second_register_outcome:
  assumes reg: "registerUser B e1 s userData = (s1, Inr (user, tok))"
    and later: "s2 = s1 \<or> s2 = fst (UserService_verifyEmail e3 s1 (Str tok))"
    and same: "getp userData' ''email'' = getp userData ''email''"
    and same_body: "getp body ''email'' = getp userData ''email''"
    and required: "truthy (getp body ''email'')" "truthy (getp body ''password'')"
      "truthy (getp body ''firstName'')" "truthy (getp body ''lastName'')"
  shows "\<exists>t. sql_param (getp userData ''email'') = SText t \<and>
           (length t \<le> 255 \<longrightarrow>
              registerUser B e2 s2 userData' = (s2, Inl email_exists) \<and>
              AuthController_register B e2 s2 body =
                (s2, reply 409 ''User with this email already exists'')) \<and>
           (255 < length t \<longrightarrow>
              (\<exists>err \<in> server_errors. registerUser B e2 s2 userData = (s2, Inl err)) \<and>
              (register_fields body = userData \<longrightarrow>
                 AuthController_register B e2 s2 body = (s2, reply 500 ''Failed to register user'')))"
proof -
  from registerUser_success [OF reg] obtain r t where
    s1: "s1 = s @ [r]" and em: "sql_param (getp userData ''email'') = SText t"
    and fit: "fit 255 t = Inr (email r)"
    by blast
  have emails: "map email s2 = map email s1"
    using later UserService_verifyEmail_emails [of e3 s1 "Str tok"] by auto
  have short: "registerUser B e2 s2 userData' = (s2, Inl email_exists) \<and>
              AuthController_register B e2 s2 body =
                (s2, reply 409 ''User with this email already exists'')"
    if "length t \<le> 255"
  proof -
    from that fit have "email r = t" by (simp add: fit_def)
    then have "t \<in> set (map email s2)"
      using emails s1 by simp
    then obtain r2 where r2: "r2 \<in> set s2" "email r2 = t"
      by auto
    have a: "text_eq (email r2) (sql_param (getp userData' ''email''))"
      by (simp add: text_eq_def em same r2)
    have b: "text_eq (email r2) (sql_param (getp body ''email''))"
      by (simp add: text_eq_def em same_body r2)
    show ?thesis
      using registerUser_existing [OF r2(1) a] AuthController_register_existing [OF r2(1) b required]
      by simp
  qed
  have long: "(\<exists>err \<in> server_errors. registerUser B e2 s2 userData = (s2, Inl err)) \<and>
              (register_fields body = userData \<longrightarrow>
                 AuthController_register B e2 s2 body = (s2, reply 500 ''Failed to register user''))"
    if "255 < length t"
  proof -
    from registerUser_cut_email_again [OF reg em that emails] obtain err where
      err: "registerUser B e2 s2 userData = (s2, Inl err)" "err \<in> server_errors"
      by blast
    from server_errors_unmapped [OF err(2)] err(1) required
    have "register_fields body = userData \<longrightarrow>
                 AuthController_register B e2 s2 body = (s2, reply 500 ''Failed to register user'')"
      by (simp add: AuthController_register_def)
    with err show ?thesis by blast
  qed
  from em short long show ?thesis by blast
qed

theorem second_register_outcome_witness:
  "registerUser stub_bcrypt env1 [] alice_registration =
     ([alice_pending], Inr (User env1 (mapDbUserToModel (row_obj alice_pending)), token1)) \<and>
   fst (UserService_verifyEmail env1 [alice_pending] (Str token1)) = [alice] \<and>
   AuthController_register stub_bcrypt env4 [alice] alice_registration =
     ([alice], reply 409 ''User with this email already exists'') \<and>
   length padded_email = 266 \<and>
   registerUser stub_bcrypt env1 [] padded_registration =
     ([padded_pending], Inr (User env1 (mapDbUserToModel (row_obj padded_pending)), token1)) \<and>
   AuthController_register stub_bcrypt env4 [padded_pending] padded_registration =
     ([padded_pending], reply 500 ''Failed to register user'')"
proof -
  have reg: "registerUser stub_bcrypt env1 [] alice_registration =
     ([alice_pending], Inr (User env1 (mapDbUserToModel (row_obj alice_pending)), token1))"
    by code_simp
  have ver: "fst (UserService_verifyEmail env1 [alice_pending] (Str token1)) = [alice]"
    by code_simp
  have t: "truthy (getp alice_registration ''email'')" "truthy (getp alice_registration ''password'')"
    "truthy (getp alice_registration ''firstName'')" "truthy (getp alice_registration ''lastName'')"
    by (simp_all add: alice_registration_def getp_def)
  have l: "[alice] = [alice_pending] \<or>
           [alice] = fst (UserService_verifyEmail env1 [alice_pending] (Str token1))"
    using ver by simp
  have e: "sql_param (getp alice_registration ''email'') = SText ''alice@example.com''"
    by (simp add: alice_registration_def getp_def)
  from second_register_outcome [OF reg l refl refl t, of env4] e
  have a: "AuthController_register stub_bcrypt env4 [alice] alice_registration =
     ([alice], reply 409 ''User with this email already exists'')"
    by auto
  have n: "length padded_email = 266"
    by (simp add: padded_email_def)
  have reg': "registerUser stub_bcrypt env1 [] padded_registration =
     ([padded_pending], Inr (User env1 (mapDbUserToModel (row_obj padded_pending)), token1))"
    by code_simp
  have t': "truthy (getp padded_registration ''email'')" "truthy (getp padded_registration ''password'')"
    "truthy (getp padded_registration ''firstName'')" "truthy (getp padded_registration ''lastName'')"
    by (simp_all add: padded_registration_def padded_email_def getp_def)
  have e': "sql_param (getp padded_registration ''email'') = SText padded_email"
    by (simp add: padded_registration_def getp_def)
  have f: "register_fields padded_registration = padded_registration"
    by (simp add: register_fields_def padded_registration_def getp_def)
  have l': "[padded_pending] = [padded_pending] \<or>
           [padded_pending] = fst (UserService_verifyEmail env1 [padded_pending] (Str token1))"
    by simp
  from second_register_outcome [OF reg' l' refl refl t', of env4] e' n f
  have b: "AuthController_register stub_bcrypt env4 [padded_pending] padded_registration =
     ([padded_pending], reply 500 ''Failed to register user'')"
    by auto
  from reg ver a n reg' b show ?thesis by simp
qed

section \<open>What leaves the trust boundary\<close>

lemma keys_toJSON:
  "keys (toJSON u) \<inter> {''passwordHash'', ''verificationToken'', ''resetPasswordToken''} = {}"
  by (auto simp: keys_def toJSON_def)

lemma omits_secrets_reply: "omits_secrets (reply code m)"
  by (simp add: omits_secrets_def reply_def)

lemma omits_secrets_toJSON:
  "omits_secrets \<lparr>status = c, body_message = m, body_user = Some (toJSON u), body_token = t\<rparr>"
  by (simp add: omits_secrets_def keys_toJSON)

lemma loginUser_view: "loginUser B cfg e s em pw = Inr (v, t) \<Longrightarrow> \<exists>u. v = toJSON u"
  by (auto simp: loginUser_def split: option.splits sum.splits if_splits)

lemma register_omits: "omits_secrets (snd (AuthController_register B e s body))"
  by (simp add: AuthController_register_def omits_secrets_reply omits_secrets_toJSON
      split: prod.splits sum.splits)

lemma login_omits: "omits_secrets (AuthController_login B cfg e s body)"
proof (cases "loginUser B cfg e s (getp body ''email'') (getp body ''password'')")
  case (Inl err)
  then show ?thesis
    by (simp add: AuthController_login_def omits_secrets_reply)
next
  case (Inr res)
  obtain v t where res: "res = (v, t)" by (cases res)
  with Inr obtain u where "v = toJSON u"
    using loginUser_view by blast
  with Inr res show ?thesis
    by (simp add: AuthController_login_def omits_secrets_reply omits_secrets_toJSON)
qed

lemma verify_omits: "omits_secrets (snd (AuthController_verifyEmail e s token))"
  by (simp add: AuthController_verifyEmail_def omits_secrets_reply omits_secrets_toJSON
      split: prod.splits sum.splits)

lemma current_user_omits: "omits_secrets (UserController_getCurrentUser e s req_user)"
  by (simp add: UserController_getCurrentUser_def omits_secrets_reply omits_secrets_toJSON
      split: sum.splits option.splits)

lemma update_profile_omits: "omits_secrets (snd (UserController_updateProfile e s req_user body))"
  by (simp add: UserController_updateProfile_def omits_secrets_reply omits_secrets_toJSON
      split: prod.splits sum.splits)

lemma public_profile_omits: "omits_secrets (UserController_getUserById e s userId)"
proof (cases "findById e s userId")
  case (Inl err)
  then show ?thesis
    by (simp add: UserController_getUserById_def omits_secrets_reply)
next
  case (Inr found)
  show ?thesis
  proof (cases found)
    case None
    with Inr show ?thesis
      by (simp add: UserController_getUserById_def omits_secrets_reply)
  next
    case (Some u)
    with Inr show ?thesis
      by (simp add: UserController_getUserById_def omits_secrets_def keys_def)
  qed
qed

text \<open>
  C4. The user view in the response of registration, login, email verification, the current-user
  fetch and the profile update (and the public profile) has none of the properties
  \<open>passwordHash\<close>, \<open>verificationToken\<close> and \<open>resetPasswordToken\<close>.
\<close>

theorem user_views_omit_secrets:
  "omits_secrets (snd (AuthController_register B e s body)) \<and>
   omits_secrets (AuthController_login B cfg e s body) \<and>
   omits_secrets (snd (AuthController_verifyEmail e s token)) \<and>
   omits_secrets (UserController_getCurrentUser e s req_user) \<and>
   omits_secrets (snd (UserController_updateProfile e s req_user body)) \<and>
   omits_secrets (UserController_getUserById e s userId)"
  by (simp add: register_omits login_omits verify_omits current_user_omits update_profile_omits
      public_profile_omits)

theorem user_views_omit_secrets_witness:
  "body_user (snd (AuthController_register stub_bcrypt env1 [] alice_registration)) \<noteq> None \<and>
   body_user (snd (AuthController_verifyEmail env1 [alice_pending] (Str token1))) \<noteq> None \<and>
   body_user (UserController_getCurrentUser env1 [alice] [(''id'', Str id1)]) \<noteq> None \<and>
   omits_secrets (snd (AuthController_register stub_bcrypt env1 [] alice_registration)) \<and>
   omits_secrets (snd (AuthController_verifyEmail env1 [alice_pending] (Str token1))) \<and>
   omits_secrets (UserController_getCurrentUser env1 [alice] [(''id'', Str id1)])"
proof -
  have a: "body_user (snd (AuthController_register stub_bcrypt env1 [] alice_registration)) \<noteq> None"
    by code_simp
  have b: "body_user (snd (AuthController_verifyEmail env1 [alice_pending] (Str token1))) \<noteq> None"
    by code_simp
  have c: "body_user (UserController_getCurrentUser env1 [alice] [(''id'', Str id1)]) \<noteq> None"
    by code_simp
  from user_views_omit_secrets [of stub_bcrypt env1 "[]" alice_registration]
    user_views_omit_secrets [of _ env1 "[alice_pending]" _ _ "Str token1"]
    user_views_omit_secrets [of _ env1 "[alice]" _ _ _ "[(''id'', Str id1)]"]
    a b c
  show ?thesis by blast
qed


section \<open>Records that are not there\<close>

text \<open>
  C10. An id or email with no matching row. \<open>findByEmail\<close> returns \<open>null\<close>, and so does \<open>findById\<close>
  for an id that is a UUID: the not-found signal their callers test. \<open>update\<close> on such an id does
  not signal not-found: the statement returns no row, \<open>result.rows[0]\<close> is \<open>undefined\<close>, and
  \<open>mapDbUserToModel\<close> throws a TypeError (unless the server has refused two assignments to one
  column before), with the store left as it was. For an id that is not a UUID the server
  refuses the parameter, and both \<open>findById\<close> and \<open>update\<close> throw its error.
\<close>

theorem missing_record_lookups_and_update:
  assumes noid: "\<forall>r \<in> set s. parse_uuid i \<noteq> Some (row_id r)"
    and noem: "\<forall>r \<in> set s. email r \<noteq> em"
  shows "findByEmail e s (Str em) = None \<and>
         (\<forall>u. parse_uuid i = Some u \<longrightarrow>
            findById e s (Str i) = Inr None \<and>
            UserRepository_update e s (Str i) [(''firstName'', Str n)] = (s, Inl undefined_id) \<and>
            (\<exists>err. UserRepository_update e s (Str i) updates = (s, Inl err) \<and>
               (err = undefined_id \<or> err = DatabaseError ''multiple assignments to same column''))) \<and>
         (parse_uuid i = None \<longrightarrow>
            findById e s (Str i) = Inl invalid_uuid \<and>
            UserRepository_update e s (Str i) [(''firstName'', Str n)] = (s, Inl invalid_uuid))"
proof -
  have "filter (\<lambda>r. text_eq (email r) (sql_param (Str em))) s = []"
    using noem by (auto simp: filter_empty_conv text_eq_def)
  then have a: "findByEmail e s (Str em) = None"
    by (simp add: findByEmail_def)
  have s1: "setFields [(''firstName'', Str n)] = [(''first_name'', SText n)]"
    by (simp add: setFields_def snake_case_keys validFields_def)
  have b: "findById e s (Str i) = Inr None \<and>
            UserRepository_update e s (Str i) [(''firstName'', Str n)] = (s, Inl undefined_id) \<and>
            (\<exists>err. UserRepository_update e s (Str i) updates = (s, Inl err) \<and>
               (err = undefined_id \<or> err = DatabaseError ''multiple assignments to same column''))"
    if u: "parse_uuid i = Some u" for u
  proof -
    have none: "\<forall>r \<in> set s. \<not> u = row_id r"
      using noid u by auto
    then have "filter (\<lambda>r. u = row_id r) s = []"
      by (simp add: filter_empty_conv)
    then have f: "findById e s (Str i) = Inr None"
      by (simp add: findById_def u)
    have rows: "\<And>sets. update_rows (\<lambda>r. u = row_id r) (assign_all sets) s = Inr (s, [])"
      using none by (rule update_rows_none)
    have c: "UserRepository_update e s (Str i) [(''firstName'', Str n)] = (s, Inl undefined_id)"
      unfolding UserRepository_update_def Let_def s1
      by (simp add: u rows email_clash_def del: assign_all.simps)
    have d: "\<exists>err. UserRepository_update e s (Str i) updates = (s, Inl err) \<and>
            (err = undefined_id \<or> err = DatabaseError ''multiple assignments to same column'')"
      unfolding UserRepository_update_def Let_def
      by (simp add: u rows email_clash_def del: assign_all.simps)
    show ?thesis using f c d by blast
  qed
  have c: "findById e s (Str i) = Inl invalid_uuid \<and>
            UserRepository_update e s (Str i) [(''firstName'', Str n)] = (s, Inl invalid_uuid)"
    if "parse_uuid i = None"
    unfolding UserRepository_update_def Let_def s1 findById_def
    using that by simp
  show ?thesis using a b c by blast
qed

theorem missing_record_lookups_and_update_witness:
  "parse_uuid id2 = Some uuid2 \<and> row_id alice \<noteq> uuid2 \<and> email alice \<noteq> ''bob@example.com'' \<and>
   findById env1 [alice] (Str id2) = Inr None \<and>
   UserRepository_update env1 [alice] (Str id2) [(''firstName'', Str ''Bob'')] =
     ([alice], Inl (TypeError ''Cannot read properties of undefined (reading id)'')) \<and>
   parse_uuid ''u2'' = None \<and>
   findById env1 [alice] (Str ''u2'') = Inl invalid_uuid \<and>
   UserRepository_update env1 [alice] (Str ''u2'') [(''firstName'', Str ''Bob'')] =
     ([alice], Inl invalid_uuid)"
proof -
  have p: "parse_uuid id2 = Some uuid2"
    by code_simp
  have q: "parse_uuid ''u2'' = None"
    by code_simp
  have r: "row_id alice \<noteq> uuid2"
    by code_simp
  have m: "email alice \<noteq> ''bob@example.com''"
    by (simp add: alice_def)
  have h: "\<forall>r \<in> set [alice]. parse_uuid id2 \<noteq> Some (row_id r)"
    using p r by simp
  have h': "\<forall>r \<in> set [alice]. parse_uuid ''u2'' \<noteq> Some (row_id r)"
    using q by simp
  have k: "\<forall>r \<in> set [alice]. email r \<noteq> ''bob@example.com''"
    using m by simp
  from missing_record_lookups_and_update [OF h k, of env1 "''Bob''"] p
  have a: "findById env1 [alice] (Str id2) = Inr None \<and>
    UserRepository_update env1 [alice] (Str id2) [(''firstName'', Str ''Bob'')] =
      ([alice], Inl undefined_id)"
    by blast
  from missing_record_lookups_and_update [OF h' k, of env1 "''Bob''"] q
  have b: "findById env1 [alice] (Str ''u2'') = Inl invalid_uuid \<and>
    UserRepository_update env1 [alice] (Str ''u2'') [(''firstName'', Str ''Bob'')] =
      ([alice], Inl invalid_uuid)"
    by blast
  from a b p q r m show ?thesis by (simp add: undefined_id_def)
qed

section \<open>Requesting a password reset\<close>

lemma assign_all_reset_request:
  "length tok \<le> 255 \<Longrightarrow>
   assign_all [(''reset_password_token'', SText tok), (''reset_password_expires'', STime x),
               (''updated_at'', STime t)] r =
     Inr (r\<lparr>reset_password_token := Some tok, reset_password_expires := Some x, updated_at := t\<rparr>)"
  by (simp add: assign_def fit_def)

lemma User_mapped_id:
  "getp (User e (mapDbUserToModel (row_obj r))) ''id'' = Str (uuid_out (row_id r))"
  by (simp add: User_def getp_def or_else_def row_obj_def mapDbUserToModel_def uuid_out_nonempty)

lemma requestPasswordReset_found:
  assumes "findByEmail e s em = Some u"
  shows "\<exists>s'. requestPasswordReset e s em =
           (s', if mail_ok e then Inr True else Inl (MailError ''sendMail failed''))"
proof -
  from assms obtain r where r: "r \<in> set s" and u: "u = User e (row_obj r)"
    using findByEmail_Some by blast
  have id: "getp u ''id'' = Str (uuid_out (row_id r))"
    by (simp add: u User_row_obj_id)
  let ?P = "\<lambda>x. row_id r = row_id x"
  let ?g = "\<lambda>x. x\<lparr>reset_password_token := Some (generateToken e),
                   reset_password_expires := Some (now e + 3600000), updated_at := now e\<rparr>"
  let ?sets = "[(''reset_password_token'', SText (generateToken e)),
                (''reset_password_expires'', STime (now e + 3600000)),
                (''updated_at'', STime (now e))]"
  have f: "\<forall>x \<in> set s. ?P x \<longrightarrow> assign_all ?sets x = Inr (?g x)"
    by (simp add: assign_all_reset_request length_generateToken del: assign_all.simps)
  have upd: "update_rows ?P (assign_all ?sets) s =
               Inr (map (\<lambda>x. if ?P x then ?g x else x) s, map ?g (filter ?P s))"
    using f by (rule update_rows_total)
  have "r \<in> set (filter ?P s)"
    using r by simp
  then have "filter ?P s \<noteq> []"
    by (metis empty_iff list.set(1))
  then obtain y ys where out: "map ?g (filter ?P s) = y # ys"
    by (cases "filter ?P s") auto
  have "\<exists>s' v. UserRepository_update e s (Str (uuid_out (row_id r)))
          [(''resetPasswordToken'', Str (generateToken e)),
           (''resetPasswordExpires'', Date (now e + 3600000))] = (s', Inr v)"
    unfolding UserRepository_update_def Let_def setFields_reset_request uuid_param_out
    using upd out by (simp del: assign_all.simps)
  then show ?thesis
    by (auto simp: requestPasswordReset_def assms id Let_def sendEmail_def)
qed

text \<open>
  C6. The claim expects the same 200 with the generic message whether or not a user has the
  email. On the code the answer to a request with an email that is not empty is 500 exactly
  when a user has that email and the mail transport rejects the message, and 200 with the
  generic message otherwise: while mail delivery is failing, the response reveals which emails
  have an account.
\<close>

theorem reset_request_outcome:
  assumes "getp body ''email'' = Str em" and "em \<noteq> []"
  shows "snd (AuthController_requestPasswordReset e s body) =
           (if (\<exists>r \<in> set s. email r = em) \<and> \<not> mail_ok e
            then reply 500 ''Failed to process password reset request''
            else reply 200 generic_reset_message)"
proof (cases "findByEmail e s (Str em)")
  case None
  then have "\<not> (\<exists>r \<in> set s. email r = em)"
    by (auto simp: findByEmail_None text_eq_def)
  moreover from None have "requestPasswordReset e s (Str em) = (s, Inr True)"
    by (simp add: requestPasswordReset_def)
  ultimately show ?thesis
    using assms by (simp add: AuthController_requestPasswordReset_def)
next
  case (Some u)
  then have ex: "\<exists>r \<in> set s. email r = em"
    using findByEmail_Some [OF Some] by (auto simp: text_eq_def)
  from requestPasswordReset_found [OF Some] obtain s' where
    "requestPasswordReset e s (Str em) =
       (s', if mail_ok e then Inr True else Inl (MailError ''sendMail failed''))"
    by blast
  with ex assms show ?thesis
    by (simp add: AuthController_requestPasswordReset_def)
qed

theorem reset_request_outcome_witness:
  "\<not> mail_ok env_mail_down \<and> email alice = ''alice@example.com'' \<and>
   snd (AuthController_requestPasswordReset env_mail_down [alice]
          [(''email'', Str ''alice@example.com'')]) =
     reply 500 ''Failed to process password reset request'' \<and>
   snd (AuthController_requestPasswordReset env_mail_down []
          [(''email'', Str ''alice@example.com'')]) =
     reply 200 generic_reset_message \<and>
   snd (AuthController_requestPasswordReset env1 [alice]
          [(''email'', Str ''alice@example.com'')]) =
     reply 200 generic_reset_message"
proof -
  have m: "\<not> mail_ok env_mail_down" "mail_ok env1"
    by (simp_all add: env_mail_down_def env1_def)
  have a: "email alice = ''alice@example.com''"
    by (simp add: alice_def)
  have g: "getp [(''email'', Str ''alice@example.com'')] ''email'' = Str ''alice@example.com''"
    by (simp add: getp_def)
  have n: "''alice@example.com'' \<noteq> []" by simp
  from reset_request_outcome [OF g n, of env_mail_down "[alice]"]
    reset_request_outcome [OF g n, of env_mail_down "[]"]
    reset_request_outcome [OF g n, of env1 "[alice]"] m a
  show ?thesis by simp
qed

section \<open>Consuming tokens\<close>

lemma update_rows_Inr_row:
  "update_rows P f s = Inr (s', out) \<Longrightarrow> r \<in> set s \<Longrightarrow> P r \<Longrightarrow> \<exists>r'. f r = Inr r'"
proof (induction s arbitrary: s' out)
  case Nil
  then show ?case by simp
next
  case (Cons x xs)
  from Cons.prems(1) obtain t o' where rest: "update_rows P f xs = Inr (t, o')"
    by (auto split: sum.splits if_splits)
  show ?case
  proof (cases "r = x")
    case True
    with Cons.prems show ?thesis by (auto split: sum.splits if_splits)
  next
    case False
    with Cons.prems(2) have "r \<in> set xs" by simp
    from Cons.IH [OF rest this Cons.prems(3)] show ?thesis .
  qed
qed

lemma fit_Inr_take: "fit n t = Inr x \<Longrightarrow> x = take n t"
  by (auto simp: fit_def split: if_splits)

lemma assign_all_reset:
  "assign_all [(''password_hash'', SText h), (''reset_password_token'', SNull),
               (''reset_password_expires'', SNull), (''updated_at'', STime t)] r =
     map_sum (\<lambda>x. x)
       (\<lambda>h'. r\<lparr>password_hash := h', reset_password_token := None,
                 reset_password_expires := None, updated_at := t\<rparr>)
       (fit 255 h)"
  by (cases "fit 255 h") (simp_all add: assign_def)

lemma validatePassword_Str: "validatePassword (Str pw) = None \<longleftrightarrow> 8 \<le> length pw"
  by auto

lemma resetPassword_success:
  assumes ok: "resetPassword B e s (Str t) pw = (s1, Inr True)"
  shows "\<exists>r h. r \<in> set s \<and> live_reset_token (now e) (SText t) r \<and>
               bcrypt_hash B e pw = Inr h \<and>
               s1 = map (\<lambda>x. if row_id x = row_id r
                              then x\<lparr>password_hash := take 255 h, reset_password_token := None,
                                     reset_password_expires := None, updated_at := now e\<rparr>
                              else x) s"
proof -
  from ok obtain r rest where
    sel: "filter (live_reset_token (now e) (sql_param (Str t))) s = r # rest"
    by (auto simp: resetPassword_def split: list.splits)
  then have "r \<in> set (filter (live_reset_token (now e) (sql_param (Str t))) s)"
    by simp
  then have r: "r \<in> set s" and live: "live_reset_token (now e) (SText t) r"
    by simp_all
  have id: "getp (User e (mapDbUserToModel (row_obj r))) ''id'' = Str (uuid_out (row_id r))"
    by (simp add: User_mapped_id)
  let ?P = "\<lambda>x. row_id r = row_id x"
  from ok sel id obtain h upd where
    h: "bcrypt_hash B e pw = Inr h"
    and up: "UserRepository_update e s (Str (uuid_out (row_id r)))
               [(''passwordHash'', Str h), (''resetPasswordToken'', Null),
                (''resetPasswordExpires'', Null)] = (s1, Inr upd)"
    by (auto simp: resetPassword_def Let_def split: option.splits sum.splits prod.splits)
  let ?sets = "[(''password_hash'', SText h), (''reset_password_token'', SNull),
                (''reset_password_expires'', SNull), (''updated_at'', STime (now e))]"
  let ?g = "\<lambda>x. x\<lparr>password_hash := take 255 h, reset_password_token := None,
                   reset_password_expires := None, updated_at := now e\<rparr>"
  from up obtain out where rows: "update_rows ?P (assign_all ?sets) s = Inr (s1, out)"
    unfolding UserRepository_update_def Let_def setFields_reset uuid_param_out
    by (auto simp del: assign_all.simps split: sum.splits if_splits list.splits)
  have "?P r" by simp
  from update_rows_Inr_row [OF rows r this] obtain h' where "fit 255 h = Inr h'"
    by (auto simp: assign_all_reset map_sum_eq_Inr simp del: assign_all.simps)
  with fit_Inr_take [OF this] have "fit 255 h = Inr (take 255 h)"
    by simp
  then have "\<forall>x \<in> set s. ?P x \<longrightarrow> assign_all ?sets x = Inr (?g x)"
    by (simp add: assign_all_reset del: assign_all.simps)
  from update_rows_total [OF this] rows
  have "s1 = map (\<lambda>x. if row_id r = row_id x then ?g x else x) s"
    by (simp del: assign_all.simps)
  moreover have "(\<lambda>x. if row_id r = row_id x then ?g x else x) =
                 (\<lambda>x. if row_id x = row_id r then ?g x else x)"
    by (rule ext) auto
  ultimately have "s1 = map (\<lambda>x. if row_id x = row_id r then ?g x else x) s"
    by simp
  with r live h show ?thesis by blast
qed

lemma verifyEmail_twice:
  assumes "UserService_verifyEmail e1 s (Str t) = (s1, Inr u)"
  shows "getp u ''isVerified'' = Bool True \<and> getp u ''verificationToken'' = Null \<and>
         (\<forall>r \<in> set s1. verification_token r \<noteq> Some t) \<and>
         UserService_verifyEmail e2 s1 (Str t) = (s1, Inl invalid_verification_token)"
proof -
  let ?P = "holds_verification_token (sql_param (Str t))"
  let ?g = "\<lambda>r. r\<lparr>is_verified := True, verification_token := None, updated_at := now e1\<rparr>"
  from assms have repo: "UserRepository_verifyEmail e1 s (Str t) = (s1, Some u)"
    by (auto simp: UserService_verifyEmail_def split: prod.splits option.splits)
  then have s1: "s1 = map (\<lambda>r. if ?P r then ?g r else r) s"
    by (simp add: verifyEmail_store)
  from repo obtain r where u: "u = User e1 (mapDbUserToModel (row_obj (?g r)))"
    by (auto simp: verifyEmail_store split: list.splits)
  have a: "getp u ''isVerified'' = Bool True"
    by (simp add: u User_mapped_fields)
  have b: "getp u ''verificationToken'' = Null"
    by (simp add: u User_def getp_def or_else_def row_obj_def mapDbUserToModel_def opt_str_def)
  have none: "\<forall>r \<in> set s1. \<not> ?P r"
    by (auto simp: s1 holds_verification_token_def)
  then have c: "\<forall>r \<in> set s1. verification_token r \<noteq> Some t"
    by (auto simp: holds_verification_token_def text_eq_def)
  from none have "filter ?P s1 = []"
    by (simp add: filter_empty_conv)
  moreover from none have "map (\<lambda>r. if ?P r
      then r\<lparr>is_verified := True, verification_token := None, updated_at := now e2\<rparr> else r) s1 = s1"
    by (simp add: map_idI)
  ultimately have "UserRepository_verifyEmail e2 s1 (Str t) = (s1, None)"
    by (simp add: verifyEmail_store)
  then have d: "UserService_verifyEmail e2 s1 (Str t) = (s1, Inl invalid_verification_token)"
    by (simp add: UserService_verifyEmail_def)
  show ?thesis using a b c d by blast
qed

lemma resetPassword_twice:
  assumes ok: "resetPassword B e1 s (Str t) pw = (s1, Inr True)"
    and one: "\<forall>x \<in> set s. \<forall>y \<in> set s.
        reset_password_token x = Some t \<and> reset_password_token y = Some t \<longrightarrow> row_id x = row_id y"
  shows "(\<exists>h. bcrypt_hash B e1 pw = Inr h \<and>
            (\<exists>r \<in> set s1. password_hash r = take 255 h \<and>
                            (length h \<le> 255 \<longrightarrow> password_hash r = h) \<and>
                            reset_password_token r = None \<and> reset_password_expires r = None)) \<and>
         (\<forall>r \<in> set s1. reset_password_token r \<noteq> Some t) \<and>
         resetPassword B e2 s1 (Str t) pw' = (s1, Inl invalid_reset_token)"
proof -
  from resetPassword_success [OF ok] obtain r h where
    r: "r \<in> set s" and live: "live_reset_token (now e1) (SText t) r"
    and h: "bcrypt_hash B e1 pw = Inr h"
    and s1: "s1 = map (\<lambda>x. if row_id x = row_id r
                              then x\<lparr>password_hash := take 255 h, reset_password_token := None,
                                     reset_password_expires := None, updated_at := now e1\<rparr>
                              else x) s"
    by blast
  from live have tok: "reset_password_token r = Some t"
    by (auto simp: live_reset_token_def text_eq_def split: option.splits)
  have a: "\<exists>r \<in> set s1. password_hash r = take 255 h \<and>
                            (length h \<le> 255 \<longrightarrow> password_hash r = h) \<and>
                            reset_password_token r = None \<and> reset_password_expires r = None"
  proof -
    let ?F = "\<lambda>x. if row_id x = row_id r
                 then x\<lparr>password_hash := take 255 h, reset_password_token := None,
                        reset_password_expires := None, updated_at := now e1\<rparr>
                 else x"
    have "?F r \<in> set s1"
      unfolding s1 using r by simp
    moreover have "password_hash (?F r) = take 255 h \<and>
                   (length h \<le> 255 \<longrightarrow> password_hash (?F r) = h) \<and>
                   reset_password_token (?F r) = None \<and> reset_password_expires (?F r) = None"
      by simp
    ultimately show ?thesis by blast
  qed
  have c: "\<forall>x \<in> set s1. reset_password_token x \<noteq> Some t"
  proof
    fix x' assume "x' \<in> set s1"
    then obtain x where x: "x \<in> set s" and x': "x' = (if row_id x = row_id r
                              then x\<lparr>password_hash := take 255 h, reset_password_token := None,
                                     reset_password_expires := None, updated_at := now e1\<rparr>
                              else x)"
      unfolding s1 by auto
    show "reset_password_token x' \<noteq> Some t"
    proof (cases "row_id x = row_id r")
      case True
      then show ?thesis by (simp add: x')
    next
      case False
      with one x r tok have "reset_password_token x \<noteq> Some t" by blast
      with False show ?thesis by (simp add: x')
    qed
  qed
  then have "filter (live_reset_token (now e2) (sql_param (Str t))) s1 = []"
    by (auto simp: filter_empty_conv live_reset_token_def text_eq_def split: option.splits)
  then have d: "resetPassword B e2 s1 (Str t) pw' = (s1, Inl invalid_reset_token)"
    by (simp add: resetPassword_def)
  show ?thesis using h a c d by blast
qed

text \<open>
  C7. The two tokens are single-use. A successful VerifyEmail sets \<open>is_verified\<close> and clears
  \<open>verification_token\<close> in one statement (the returned user is verified and has no token, no
  row holds the token afterwards), and presenting the token again fails with the
  invalid-or-expired error. A successful ResetPassword stores the new hash and clears the reset
  token and its expiry in one statement, and presenting the token again fails with the
  invalid-or-expired error. The reset token is taken to belong to one user (it is drawn at random
  per request).
\<close>

theorem tokens_are_single_use:
  assumes one: "\<forall>x \<in> set s. \<forall>y \<in> set s.
        reset_password_token x = Some t \<and> reset_password_token y = Some t \<longrightarrow> row_id x = row_id y"
  shows "(UserService_verifyEmail e1 s (Str t) = (s1, Inr u) \<longrightarrow>
            getp u ''isVerified'' = Bool True \<and> getp u ''verificationToken'' = Null \<and>
            (\<forall>r \<in> set s1. verification_token r \<noteq> Some t) \<and>
            UserService_verifyEmail e2 s1 (Str t) = (s1, Inl invalid_verification_token)) \<and>
         (resetPassword B e1 s (Str t) pw = (s2, Inr True) \<longrightarrow>
            (\<exists>h. bcrypt_hash B e1 pw = Inr h \<and>
               (\<exists>r \<in> set s2. password_hash r = take 255 h \<and>
                               (length h \<le> 255 \<longrightarrow> password_hash r = h) \<and>
                               reset_password_token r = None \<and> reset_password_expires r = None)) \<and>
            (\<forall>r \<in> set s2. reset_password_token r \<noteq> Some t) \<and>
            resetPassword B e2 s2 (Str t) pw' = (s2, Inl invalid_reset_token))"
  using verifyEmail_twice [of e1 s t s1 u e2] resetPassword_twice [of B e1 s t pw s2 e2 pw'] one
  by blast


theorem tokens_are_single_use_witness:
  "UserService_verifyEmail env1 [alice_pending] (Str token1) =
     ([alice], Inr (User env1 (mapDbUserToModel (row_obj alice)))) \<and>
   UserService_verifyEmail env2 [alice] (Str token1) = ([alice], Inl invalid_verification_token) \<and>
   resetPassword stub_bcrypt env1 [alice_resetting] (Str token1) (Str ''NewPassword1'') =
     ([alice_reset], Inr True) \<and>
   resetPassword stub_bcrypt env2 [alice_reset] (Str token1) (Str ''Another123'') =
     ([alice_reset], Inl invalid_reset_token)"
proof -
  have o1: "\<forall>x \<in> set [alice_pending]. \<forall>y \<in> set [alice_pending].
        reset_password_token x = Some token1 \<and> reset_password_token y = Some token1 \<longrightarrow>
        row_id x = row_id y"
    by simp
  have o2: "\<forall>x \<in> set [alice_resetting]. \<forall>y \<in> set [alice_resetting].
        reset_password_token x = Some token1 \<and> reset_password_token y = Some token1 \<longrightarrow>
        row_id x = row_id y"
    by simp
  have ver: "UserService_verifyEmail env1 [alice_pending] (Str token1) =
     ([alice], Inr (User env1 (mapDbUserToModel (row_obj alice))))"
    by code_simp
  have res: "resetPassword stub_bcrypt env1 [alice_resetting] (Str token1) (Str ''NewPassword1'') =
     ([alice_reset], Inr True)"
    by code_simp
  from tokens_are_single_use [OF o1, where ?e1.0 = env1 and ?s1.0 = "[alice]" and ?e2.0 = env2] ver
  have a: "UserService_verifyEmail env2 [alice] (Str token1) = ([alice], Inl invalid_verification_token)"
    by blast
  from tokens_are_single_use [OF o2, where B = stub_bcrypt and ?e1.0 = env1
      and pw = "Str ''NewPassword1''" and ?s2.0 = "[alice_reset]" and ?e2.0 = env2
      and pw' = "Str ''Another123''"] res
  have b: "resetPassword stub_bcrypt env2 [alice_reset] (Str token1) (Str ''Another123'') =
     ([alice_reset], Inl invalid_reset_token)"
    by blast
  from ver res a b show ?thesis by simp
qed

text \<open>
  C8. A reset token that a user holds but whose expiry is not in the future (past, now, or
  absent): ResetPassword fails with the invalid-or-expired error, as it does on the store without
  the rows that hold the token, the handler answers 400 with that message, and the store is
  unchanged.
\<close>

theorem expired_reset_token_rejected:
  assumes holder: "r \<in> set s" "reset_password_token r = Some t"
    and dead: "\<forall>y \<in> set s. reset_password_token y = Some t \<longrightarrow>
                 (\<forall>x. reset_password_expires y = Some x \<longrightarrow> x \<le> now e)"
  shows "resetPassword B e s (Str t) pw = (s, Inl invalid_reset_token) \<and>
         snd (resetPassword B e (filter (\<lambda>y. reset_password_token y \<noteq> Some t) s) (Str t) pw) =
           Inl invalid_reset_token \<and>
         (t \<noteq> [] \<and> truthy pw \<longrightarrow>
            AuthController_resetPassword B e s [(''token'', Str t), (''password'', pw)] =
              (s, reply 400 ''Invalid or expired reset token''))"
proof -
  have "filter (live_reset_token (now e) (sql_param (Str t))) s = []"
    using dead
    by (auto simp: filter_empty_conv live_reset_token_def text_eq_def split: option.splits)
  then have a: "resetPassword B e s (Str t) pw = (s, Inl invalid_reset_token)"
    by (simp add: resetPassword_def)
  have "filter (live_reset_token (now e) (sql_param (Str t)))
          (filter (\<lambda>y. reset_password_token y \<noteq> Some t) s) = []"
    by (auto simp: filter_empty_conv live_reset_token_def text_eq_def split: option.splits)
  then have b: "snd (resetPassword B e (filter (\<lambda>y. reset_password_token y \<noteq> Some t) s) (Str t) pw) =
           Inl invalid_reset_token"
    by (simp add: resetPassword_def)
  have c: "t \<noteq> [] \<and> truthy pw \<longrightarrow>
            AuthController_resetPassword B e s [(''token'', Str t), (''password'', pw)] =
              (s, reply 400 ''Invalid or expired reset token'')"
    by (simp add: AuthController_resetPassword_def getp_def a invalid_reset_token_def)
  show ?thesis using a b c by blast
qed

theorem expired_reset_token_rejected_witness:
  "alice_resetting \<in> set [alice_resetting] \<and> reset_password_token alice_resetting = Some token1 \<and>
   reset_password_expires alice_resetting = Some 5000 \<and> now env3 = 6000 \<and>
   resetPassword stub_bcrypt env3 [alice_resetting] (Str token1) (Str ''NewPassword1'') =
     ([alice_resetting], Inl invalid_reset_token) \<and>
   resetPassword stub_bcrypt env3 [] (Str token1) (Str ''NewPassword1'') =
     ([], Inl invalid_reset_token)"
proof -
  have m: "alice_resetting \<in> set [alice_resetting]" by simp
  have t: "reset_password_token alice_resetting = Some token1"
    by (simp add: alice_resetting_def)
  have x: "reset_password_expires alice_resetting = Some 5000"
    by (simp add: alice_resetting_def)
  have n: "now env3 = 6000"
    by (simp add: env3_def)
  have d: "\<forall>y \<in> set [alice_resetting]. reset_password_token y = Some token1 \<longrightarrow>
                 (\<forall>x. reset_password_expires y = Some x \<longrightarrow> x \<le> now env3)"
    by (simp add: x n)
  have z: "resetPassword stub_bcrypt env3 [] (Str token1) (Str ''NewPassword1'') =
     ([], Inl invalid_reset_token)"
    by (simp add: resetPassword_def)
  from expired_reset_token_rejected [OF m t d, of stub_bcrypt "Str ''NewPassword1''"] m t x n z
  show ?thesis by simp
qed


section \<open>Updating the profile\<close>










end
